theory Spec2Isabelle
  imports
    Main
    "HOL-Library.Char_ord"
    "HOL-Library.List_Lexorder"
    "HOL-Library.Product_Lexorder"
begin

section \<open>Python strings\<close>

text \<open>
  Strings are lists of characters. The text handled by the pipeline (node ids, labels,
  guard expressions) is taken to be ASCII: \<open>str.strip\<close> and the regular expression class
  \<open>\s\<close> remove the ASCII white space characters, \<open>str.lower\<close> maps \<open>A-Z\<close> to \<open>a-z\<close>,
  and strings are compared character by character, as Python compares code points.
\<close>

definition is_space :: "char \<Rightarrow> bool" where
  "is_space c = (c \<in> set [CHR 0x09, CHR 0x0A, CHR 0x0B, CHR 0x0C, CHR 0x0D,
                             CHR 0x1C, CHR 0x1D, CHR 0x1E, CHR 0x1F, CHR 0x20])"

definition lower_char :: "char \<Rightarrow> char" where
  "lower_char c =
     (case map_of (zip ''ABCDEFGHIJKLMNOPQRSTUVWXYZ'' ''abcdefghijklmnopqrstuvwxyz'') c of
        Some l \<Rightarrow> l
      | None \<Rightarrow> c)"

definition py_lower :: "string \<Rightarrow> string" where
  "py_lower s = map lower_char s"

definition py_lstrip :: "string \<Rightarrow> string" where
  "py_lstrip s = dropWhile is_space s"

definition py_rstrip :: "string \<Rightarrow> string" where
  "py_rstrip s = rev (dropWhile is_space (rev s))"

definition py_strip :: "string \<Rightarrow> string" where
  "py_strip s = py_rstrip (py_lstrip s)"

text \<open>\<open>s.strip('"')\<close>: every leading and trailing double quote is removed.\<close>

definition strip_quotes :: "string \<Rightarrow> string" where
  "strip_quotes s =
     rev (dropWhile (\<lambda>c. c = CHR 0x22) (rev (dropWhile (\<lambda>c. c = CHR 0x22) s)))"

definition startswith :: "string \<Rightarrow> string \<Rightarrow> bool" where
  "startswith p s = (take (length p) s = p)"

text \<open>
  \<open>split_first sep s\<close> is \<open>s.split(sep, 1)\<close> when \<open>sep\<close> occurs in \<open>s\<close>: the text before the
  first occurrence and the text after it. It is \<open>None\<close> exactly when \<open>sep in s\<close> is false.
\<close>

fun split_first :: "string \<Rightarrow> string \<Rightarrow> (string \<times> string) option" where
  "split_first sep [] = (if sep = [] then Some ([], []) else None)"
| "split_first sep (c # cs) =
     (if startswith sep (c # cs) then Some ([], drop (length sep) (c # cs))
      else (case split_first sep cs of
              None \<Rightarrow> None
            | Some (a, b) \<Rightarrow> Some (c # a, b)))"

definition contains :: "string \<Rightarrow> string \<Rightarrow> bool" where
  "contains sep s = (split_first sep s \<noteq> None)"

text \<open>
  \<open>py_split sep acc s\<close> is \<open>s.split(sep)\<close> for a non-empty separator, \<open>acc\<close> holding the
  reversed characters of the piece being read. (Python raises on an empty separator; the
  pipeline only splits on the literal \<open>&&\<close>.)
\<close>

function py_split :: "string \<Rightarrow> string \<Rightarrow> string \<Rightarrow> string list" where
  "py_split sep acc [] = [rev acc]"
| "py_split sep acc (c # cs) =
     (if sep \<noteq> [] \<and> startswith sep (c # cs)
      then rev acc # py_split sep [] (drop (length sep) (c # cs))
      else py_split sep (c # acc) cs)"
  by pat_completeness auto
termination
  by (relation "measure (\<lambda>(sep, acc, s). length s)") auto

text \<open>\<open>str(n)\<close> for an integer: decimal digits, with a minus sign when negative.\<close>

fun str_nat :: "nat \<Rightarrow> string" where
  "str_nat n =
     (if n < 10 then [''0123456789'' ! n]
      else str_nat (n div 10) @ [''0123456789'' ! (n mod 10)])"

definition str_int :: "int \<Rightarrow> string" where
  "str_int i = (if i < 0 then CHR ''-'' # str_nat (nat (- i)) else str_nat (nat i))"

section \<open>Data model\<close>

text \<open>
  Values held in the context and in attribute maps. A float is given by what the code can
  observe of it: its \<open>str()\<close> text, its truth value and the result of \<open>int()\<close> on it
  (\<open>None\<close> where \<open>int()\<close> raises, on infinities and NaN). \<open>PyObj\<close> stands for any
  other Python object (a list, a parsed document), given by its \<open>str()\<close> text and its
  truth value. A stored \<open>None\<close> cannot be told from a missing key through \<open>dict.get\<close>,
  so it is modelled as a missing key.
\<close>

datatype pyval =
    PyStr string
  | PyInt int
  | PyBool bool
  | PyFloat string bool "int option"
  | PyObj string bool

fun py_str :: "pyval \<Rightarrow> string" where
  "py_str (PyStr s) = s"
| "py_str (PyInt i) = str_int i"
| "py_str (PyBool b) = (if b then ''True'' else ''False'')"
| "py_str (PyFloat s b i) = s"
| "py_str (PyObj s b) = s"

fun py_bool :: "pyval \<Rightarrow> bool" where
  "py_bool (PyStr s) = (s \<noteq> [])"
| "py_bool (PyInt i) = (i \<noteq> 0)"
| "py_bool (PyBool b) = b"
| "py_bool (PyFloat s b i) = b"
| "py_bool (PyObj s b) = b"

datatype StageStatus = SUCCESS | FAIL | PARTIAL_SUCCESS | RETRY | SKIPPED

fun status_value :: "StageStatus \<Rightarrow> string" where
  "status_value SUCCESS = ''success''"
| "status_value FAIL = ''fail''"
| "status_value PARTIAL_SUCCESS = ''partial_success''"
| "status_value RETRY = ''retry''"
| "status_value SKIPPED = ''skipped''"

type_synonym Context = "string \<rightharpoonup> pyval"

text \<open>
  \<open>suggested_next_ids\<close> and \<open>context_updates\<close> default to \<open>None\<close> in the source and are
  only ever tested for truth before use, so \<open>None\<close> is the empty list and the empty map.
\<close>

record outcome =
  status :: StageStatus
  preferred_label :: string
  suggested_next_ids :: "string list"
  context_updates :: Context
  o_notes :: string
  failure_reason :: string

definition Outcome :: "StageStatus \<Rightarrow> outcome" where
  "Outcome st = \<lparr>status = st, preferred_label = [], suggested_next_ids = [],
                 context_updates = Map.empty, o_notes = [], failure_reason = []\<rparr>"

record node =
  n_id :: string
  n_label :: string
  n_shape :: string
  n_type :: string
  n_prompt :: string
  n_attrs :: "string \<rightharpoonup> pyval"

record edge =
  from_node :: string
  to_node :: string
  label :: string
  condition :: string
  weight :: int

text \<open>The node dictionary keeps insertion order, so it is an association list.\<close>

record graph =
  g_name :: string
  goal :: string
  g_label :: string
  nodes :: "(string \<times> node) list"
  edges :: "edge list"
  graph_attrs :: "string \<rightharpoonup> pyval"

definition get_node :: "graph \<Rightarrow> string \<Rightarrow> node option" where
  "get_node g node_id = map_of (nodes g) node_id"

definition outgoing_edges :: "graph \<Rightarrow> string \<Rightarrow> edge list" where
  "outgoing_edges g node_id = filter (\<lambda>e. from_node e = node_id) (edges g)"

definition find_start_node :: "graph \<Rightarrow> string option" where
  "find_start_node g =
     (case find (\<lambda>(nid, n). n_shape n = ''Mdiamond'') (nodes g) of
        Some (nid, n) \<Rightarrow> Some nid
      | None \<Rightarrow>
          if get_node g ''start'' \<noteq> None then Some ''start''
          else if get_node g ''Start'' \<noteq> None then Some ''Start''
          else None)"

definition is_terminal :: "graph \<Rightarrow> string \<Rightarrow> bool" where
  "is_terminal g node_id =
     (case get_node g node_id of
        None \<Rightarrow> False
      | Some n \<Rightarrow>
          if n_shape n = ''Msquare'' then True
          else py_lower node_id \<in> set [''exit'', ''end''])"

section \<open>Condition evaluation (\<open>conditions.py\<close>)\<close>

definition resolve_key :: "string \<Rightarrow> outcome \<Rightarrow> Context \<Rightarrow> string" where
  "resolve_key key0 oc ctx =
     (let key = py_strip key0 in
      if key = ''outcome'' then status_value (status oc)
      else if key = ''preferred_label'' then preferred_label oc
      else if startswith ''context.'' key then
        (let k = py_strip (drop 9 key) in
         case ctx k of
           Some v \<Rightarrow> py_str v
         | None \<Rightarrow> (case ctx key of Some v \<Rightarrow> py_str v | None \<Rightarrow> []))
      else (case ctx key of Some v \<Rightarrow> py_str v | None \<Rightarrow> []))"

definition evaluate_clause :: "string \<Rightarrow> outcome \<Rightarrow> Context \<Rightarrow> bool" where
  "evaluate_clause clause0 oc ctx =
     (let clause = py_strip clause0 in
      case split_first ''!='' clause of
        Some (p0, p1) \<Rightarrow>
          resolve_key (py_strip p0) oc ctx \<noteq> strip_quotes (py_strip p1)
      | None \<Rightarrow>
          (case split_first ''='' clause of
             Some (p0, p1) \<Rightarrow>
               resolve_key (py_strip p0) oc ctx = strip_quotes (py_strip p1)
           | None \<Rightarrow> resolve_key clause oc ctx \<noteq> []))"

text \<open>The loop over the clauses: the first false clause ends it with \<open>False\<close>.\<close>

fun all_clauses :: "string list \<Rightarrow> outcome \<Rightarrow> Context \<Rightarrow> bool" where
  "all_clauses [] oc ctx = True"
| "all_clauses (clause # rest) oc ctx =
     (if \<not> evaluate_clause clause oc ctx then False else all_clauses rest oc ctx)"

definition evaluate_condition :: "string \<Rightarrow> outcome \<Rightarrow> Context \<Rightarrow> bool" where
  "evaluate_condition cond oc ctx =
     (if cond = [] \<or> py_strip cond = [] then True
      else all_clauses
             (map py_strip (filter (\<lambda>c. py_strip c \<noteq> []) (py_split ''&&'' [] cond)))
             oc ctx)"

section \<open>Edge selection (\<open>engine.py\<close>)\<close>

text \<open>Python's slice \<open>s[i:j]\<close> for \<open>0 \<le> i \<le> j\<close>.\<close>

definition slice :: "nat \<Rightarrow> nat \<Rightarrow> string \<Rightarrow> string" where
  "slice i j s = take (j - i) (drop i s)"

text \<open>The three \<open>if\<close> statements of \<open>_normalize_label\<close>, one definition each.\<close>

definition strip_bracket :: "string \<Rightarrow> string" where
  "strip_bracket s =
     (if startswith ''['' s \<and> contains '']'' (slice 0 4 s)
      then (case split_first '']'' s of Some (p0, p1) \<Rightarrow> py_strip p1 | None \<Rightarrow> s)
      else s)"

definition strip_paren :: "string \<Rightarrow> string" where
  "strip_paren s =
     (if length s \<ge> 2 \<and> slice 1 2 s = '')'' then py_strip (drop 2 s) else s)"

definition strip_dash :: "string \<Rightarrow> string" where
  "strip_dash s =
     (if length s \<ge> 3 \<and> slice 1 3 s = '' -'' then py_strip (drop 3 s) else s)"

definition normalize_label :: "string \<Rightarrow> string" where
  "normalize_label lbl =
     py_strip (strip_dash (strip_paren (strip_bracket (py_lower (py_strip lbl)))))"

text \<open>
  The sort key \<open>(-e.weight, e.to_node)\<close>. \<open>sorted\<close> is stable, as \<open>sort_key\<close> is; the
  source takes element \<open>[0]\<close> of the sorted list only when the list is not empty.
\<close>

definition edge_key :: "edge \<Rightarrow> int \<times> string" where
  "edge_key e = (- weight e, to_node e)"

text \<open>
  The three \<open>for\<close> loops of \<open>select_edge\<close>, each returning at its first hit: over the
  edges for the preferred label, and over the suggested ids and, inside, the edges.
\<close>

fun first_label_match :: "string \<Rightarrow> edge list \<Rightarrow> edge option" where
  "first_label_match pl [] = None"
| "first_label_match pl (e # es) =
     (if normalize_label (label e) = pl then Some e else first_label_match pl es)"

fun first_to_node :: "string \<Rightarrow> edge list \<Rightarrow> edge option" where
  "first_to_node sid [] = None"
| "first_to_node sid (e # es) =
     (if to_node e = sid then Some e else first_to_node sid es)"

fun first_suggested :: "string list \<Rightarrow> edge list \<Rightarrow> edge option" where
  "first_suggested [] es = None"
| "first_suggested (sid # sids) es =
     (case first_to_node sid es of
        Some e \<Rightarrow> Some e
      | None \<Rightarrow> first_suggested sids es)"

definition condition_matched :: "edge list \<Rightarrow> outcome \<Rightarrow> Context \<Rightarrow> edge list" where
  "condition_matched es oc ctx =
     filter (\<lambda>e. condition e \<noteq> [] \<and> evaluate_condition (condition e) oc ctx) es"

definition select_edge :: "node \<Rightarrow> outcome \<Rightarrow> Context \<Rightarrow> graph \<Rightarrow> edge option" where
  "select_edge n oc ctx g =
     (let es = outgoing_edges g (n_id n) in
      if es = [] then None
      else if condition_matched es oc ctx \<noteq> []
      then Some (hd (sort_key edge_key (condition_matched es oc ctx)))
      else
        (case (if preferred_label oc \<noteq> []
               then first_label_match (normalize_label (preferred_label oc)) es
               else None) of
           Some e \<Rightarrow> Some e
         | None \<Rightarrow>
            (case (if suggested_next_ids oc \<noteq> []
                   then first_suggested (suggested_next_ids oc) es
                   else None) of
               Some e \<Rightarrow> Some e
             | None \<Rightarrow>
                 if filter (\<lambda>e. condition e = []) es \<noteq> []
                 then Some (hd (sort_key edge_key (filter (\<lambda>e. condition e = []) es)))
                 else Some (hd (sort_key edge_key es)))))"

section \<open>Engine traversal (\<open>PipelineEngine.run\<close>)\<close>

datatype error = ValueError string | RuntimeError string | OtherError string

fun str_error :: "error \<Rightarrow> string" where
  "str_error (ValueError m) = m"
| "str_error (RuntimeError m) = m"
| "str_error (OtherError m) = m"

text \<open>
  The result dictionary that the task runner stores: the four keys of a finished run, or
  the two keys written when an exception was caught.
\<close>

datatype task_result =
    RunResult string string string string
  | FailedResult string

text \<open>
  Events, as the callback receives them (kind and data), together with the two kinds that
  the task runner appends itself.
\<close>

datatype event =
    StageStarted string string
  | StageCompleted string string string
  | PipelineFailed string string
  | PipelineCompleted string
  | Progress string int "task_result option"
  | ErrorEvent string

definition display_name :: "node \<Rightarrow> string" where
  "display_name n = (if n_label n \<noteq> [] then n_label n else n_id n)"

text \<open>\<open>d[k] = v\<close> on an insertion-ordered dictionary.\<close>

fun dict_set :: "'k \<Rightarrow> 'v \<Rightarrow> ('k \<times> 'v) list \<Rightarrow> ('k \<times> 'v) list" where
  "dict_set k v [] = [(k, v)]"
| "dict_set k v ((k', v') # rest) =
     (if k' = k then (k, v) # rest else (k', v') # dict_set k v rest)"

text \<open>
  The handlers are outside the engine: \<open>H i n ctx\<close> is what resolving and executing the
  handler of node \<open>n\<close> does as the \<open>i\<close>-th stage of the run, an exception or the Outcome
  together with the context as the handler left it. Writing the log files is not modelled.
\<close>

type_synonym handlers = "nat \<Rightarrow> node \<Rightarrow> Context \<Rightarrow> error + outcome \<times> Context"

record run_state =
  current_id :: string
  node_outcomes :: "(string \<times> outcome) list"
  last_outcome :: "outcome option"
  run_ctx :: Context
  emitted :: "event list"
  stage_no :: nat

text \<open>How a run ends, and what one pass of the loop does.\<close>

datatype run_result =
    Raised error run_state
  | Returned outcome run_state

datatype step_result =
    Stop run_result
  | Continue run_state

definition goal_gate :: "node \<Rightarrow> bool" where
  "goal_gate n = (case n_attrs n ''goal_gate'' of None \<Rightarrow> False | Some v \<Rightarrow> py_bool v)"

text \<open>The goal gate loop: the first recorded node that is gated and not satisfied.\<close>

fun goal_gate_scan :: "graph \<Rightarrow> (string \<times> outcome) list \<Rightarrow> (string \<times> outcome) option" where
  "goal_gate_scan g [] = None"
| "goal_gate_scan g ((nid, oc) # rest) =
     (case get_node g nid of
        None \<Rightarrow> goal_gate_scan g rest
      | Some n \<Rightarrow>
          if goal_gate n \<and> status oc \<notin> set [SUCCESS, PARTIAL_SUCCESS]
          then Some (nid, oc)
          else goal_gate_scan g rest)"

definition gate_failure :: "string \<Rightarrow> outcome \<Rightarrow> outcome" where
  "gate_failure nid oc =
     (Outcome FAIL)\<lparr>failure_reason :=
        ''Goal gate unsatisfied at node '' @ [CHR 0x27] @ nid @ [CHR 0x27] @ '': '' @
        (if failure_reason oc \<noteq> [] then failure_reason oc else status_value (status oc))\<rparr>"

text \<open>Leaving the loop by \<open>break\<close>: the code after the loop.\<close>

definition finish :: "run_state \<Rightarrow> step_result" where
  "finish st =
     Stop (Returned (case last_outcome st of
               Some oc \<Rightarrow> oc
             | None \<Rightarrow> (Outcome SUCCESS)\<lparr>o_notes := ''Pipeline completed''\<rparr>)
            (st\<lparr>emitted := emitted st @ [PipelineCompleted (current_id st)]\<rparr>))"

definition record_outcome :: "run_state \<Rightarrow> node \<Rightarrow> outcome \<Rightarrow> Context \<Rightarrow> run_state" where
  "record_outcome st n oc c1 =
     (let c2 = c1 ++ context_updates oc;
          c3 = c2(''outcome'' \<mapsto> PyStr (status_value (status oc)));
          c4 = (if preferred_label oc \<noteq> []
                then c3(''preferred_label'' \<mapsto> PyStr (preferred_label oc)) else c3)
      in st\<lparr>node_outcomes := dict_set (current_id st) oc (node_outcomes st),
             last_outcome := Some oc,
             run_ctx := c4,
             emitted := emitted st @
               [StageCompleted (n_id n) (status_value (status oc)) (o_notes oc)],
             stage_no := Suc (stage_no st)\<rparr>)"

text \<open>What follows \<open>StageCompleted\<close> in one pass of the loop: failure routing or edge selection.\<close>

definition route :: "graph \<Rightarrow> node \<Rightarrow> outcome \<Rightarrow> run_state \<Rightarrow> step_result" where
  "route g n oc st =
     (if status oc = FAIL then
        (let fail_edges = condition_matched (outgoing_edges g (n_id n)) oc (run_ctx st) in
         if fail_edges \<noteq> []
         then Continue (st\<lparr>current_id := to_node (hd (sort_key edge_key fail_edges))\<rparr>)
         else Stop (Raised (RuntimeError (''Stage '' @ [CHR 0x27] @ n_id n @ [CHR 0x27] @
                                          '' failed: '' @ failure_reason oc)) st))
      else
        (case select_edge n oc (run_ctx st) g of
           None \<Rightarrow> finish st
         | Some next_edge \<Rightarrow> Continue (st\<lparr>current_id := to_node next_edge\<rparr>)))"

text \<open>One pass of the \<open>while True\<close> loop.\<close>

definition engine_step :: "handlers \<Rightarrow> graph \<Rightarrow> run_state \<Rightarrow> step_result" where
  "engine_step H g st =
     (case get_node g (current_id st) of
        None \<Rightarrow> Stop (Raised (RuntimeError (''Node not found: '' @ current_id st)) st)
      | Some n \<Rightarrow>
          if is_terminal g (current_id st) then
            (case goal_gate_scan g (node_outcomes st) of
               Some (nid, oc) \<Rightarrow>
                 Stop (Returned (gate_failure nid oc)
                   (st\<lparr>emitted := emitted st @
                          [PipelineFailed nid (failure_reason (gate_failure nid oc))]\<rparr>))
             | None \<Rightarrow> finish st)
          else
            (let st0 = st\<lparr>emitted := emitted st @ [StageStarted (n_id n) (display_name n)]\<rparr>
             in case H (stage_no st) n (run_ctx st) of
                  Inl e \<Rightarrow> Stop (Raised e st0)
                | Inr (oc, c1) \<Rightarrow> route g n oc (record_outcome st0 n oc c1)))"

text \<open>
  The loop need not end (a graph may cycle for ever): \<open>None\<close> is a run that never
  returns.
\<close>

partial_function (option) run_loop :: "handlers \<Rightarrow> graph \<Rightarrow> run_state \<Rightarrow> run_result option" where
  "run_loop H g st =
     (case engine_step H g st of
        Continue st' \<Rightarrow> run_loop H g st'
      | Stop r \<Rightarrow> Some r)"

definition initial_state :: "string \<Rightarrow> Context \<Rightarrow> run_state" where
  "initial_state start_id c =
     \<lparr>current_id = start_id, node_outcomes = [], last_outcome = None,
      run_ctx = c, emitted = [], stage_no = 0\<rparr>"

definition seed_context :: "graph \<Rightarrow> Context \<Rightarrow> Context" where
  "seed_context g c = c(''graph.goal'' \<mapsto> PyStr (goal g), ''graph.label'' \<mapsto> PyStr (g_label g))"

definition run :: "handlers \<Rightarrow> graph \<Rightarrow> Context \<Rightarrow> run_result option" where
  "run H g c =
     (case find_start_node g of
        None \<Rightarrow>
          Some (Raised (ValueError ''No start node (shape=Mdiamond or id=start) found'')
                       (initial_state [] (seed_context g c)))
      | Some start_id \<Rightarrow>
          if start_id = []
          then Some (Raised (ValueError ''No start node (shape=Mdiamond or id=start) found'')
                            (initial_state [] (seed_context g c)))
          else run_loop H g (initial_state start_id (seed_context g c)))"

section \<open>Tool handler (\<open>handlers/tool.py\<close>)\<close>

text \<open>
  What \<open>subprocess.run\<close> can do: complete with a return code and the captured standard
  output and error, exceed the timeout, or raise something else.
\<close>

datatype proc_result = Completed int string string | TimeoutExpired | ProcError string

text \<open>
  A registered executor returns an Outcome or raises (\<open>Inl\<close>, the exception's message),
  and may write to the context. \<open>subprocess_run command cwd\<close> is the operating system's
  answer to running \<open>command\<close> in directory \<open>cwd\<close> with the 300 second timeout.
\<close>

type_synonym tool_executor = "node \<Rightarrow> Context \<Rightarrow> (string + outcome) \<times> Context"

record tool_env =
  executors :: "string \<rightharpoonup> tool_executor"
  subprocess_run :: "pyval \<Rightarrow> pyval \<Rightarrow> proc_result"

text \<open>\<open>a or b\<close> on the results of two \<open>dict.get\<close> calls.\<close>

definition py_or :: "pyval option \<Rightarrow> pyval option \<Rightarrow> pyval option" where
  "py_or a b = (case a of Some v \<Rightarrow> if py_bool v then Some v else b | None \<Rightarrow> b)"

text \<open>The working directory, \<open>context.get("work_dir") or "."\<close>.\<close>

definition work_dir :: "Context \<Rightarrow> pyval" where
  "work_dir ctx =
     (case py_or (ctx ''work_dir'') (Some (PyStr ''.'')) of Some d \<Rightarrow> d | None \<Rightarrow> PyStr ''.'')"

definition registered :: "tool_env \<Rightarrow> node \<Rightarrow> tool_executor option" where
  "registered env n =
     (case py_or (n_attrs n ''tool'') (n_attrs n ''tool_command'') of
        Some (PyStr tool_name) \<Rightarrow> executors env tool_name
      | _ \<Rightarrow> None)"

definition tool_execute :: "tool_env \<Rightarrow> node \<Rightarrow> Context \<Rightarrow> outcome \<times> Context" where
  "tool_execute env n ctx =
     (case registered env n of
        Some ex \<Rightarrow>
          (case ex n ctx of
             (Inr oc, ctx') \<Rightarrow> (oc, ctx')
           | (Inl msg, ctx') \<Rightarrow> ((Outcome FAIL)\<lparr>failure_reason := msg\<rparr>, ctx'))
      | None \<Rightarrow>
          (let command = (case n_attrs n ''tool_command'' of None \<Rightarrow> PyStr [] | Some v \<Rightarrow> v) in
           if \<not> py_bool command
           then ((Outcome FAIL)\<lparr>failure_reason :=
                    ''No tool_command or registered tool specified''\<rparr>, ctx)
           else
             (case subprocess_run env command (work_dir ctx) of
                Completed returncode out err \<Rightarrow>
                  (\<lparr>status = (if returncode = 0 then SUCCESS else FAIL),
                    preferred_label = [],
                    suggested_next_ids = [],
                    context_updates = [''tool.output'' \<mapsto> PyStr (out @ err)],
                    o_notes = ''Tool completed: '' @ py_str command,
                    failure_reason =
                      (if returncode = 0 then []
                       else if out @ err \<noteq> [] then out @ err
                       else ''exit code '' @ str_int returncode)\<rparr>, ctx)
              | TimeoutExpired \<Rightarrow> ((Outcome FAIL)\<lparr>failure_reason := ''Tool timed out''\<rparr>, ctx)
              | ProcError msg \<Rightarrow> ((Outcome FAIL)\<lparr>failure_reason := msg\<rparr>, ctx))))"

section \<open>Task runner (\<open>run_pipeline.py\<close>)\<close>

text \<open>
  The task table holds, for each task, a reference to a list object; \<open>run_task\<close> holds a
  reference to its own list \<open>events\<close>. Whether the two are the same object decides what an
  observer of the task sees, so list objects live in a heap and are named by addresses.
\<close>

record task =
  t_status :: string
  t_events :: nat
  t_result :: "task_result option"

record world =
  task_store :: "string \<rightharpoonup> task"
  heap :: "nat \<Rightarrow> event list"
  fresh :: nat

definition step_names :: "string \<rightharpoonup> string" where
  "step_names = [''fetch_input'' \<mapsto> ''parsing'', ''parse'' \<mapsto> ''parsing'',
                 ''understand'' \<mapsto> ''understanding'', ''convert'' \<mapsto> ''converting'',
                 ''publish'' \<mapsto> ''publishing'']"

definition step_progress :: "string \<Rightarrow> int" where
  "step_progress step =
     (case [''parsing'' \<mapsto> 25, ''understanding'' \<mapsto> 50, ''converting'' \<mapsto> 75,
            ''publishing'' \<mapsto> (100::int)] step of
        Some p \<Rightarrow> p
      | None \<Rightarrow> 0)"

text \<open>\<open>data.get("node_id", "")\<close> on the data of an engine event.\<close>

fun event_node_id :: "event \<Rightarrow> string" where
  "event_node_id (StageStarted nid lbl) = nid"
| "event_node_id (StageCompleted nid oc nt) = nid"
| "event_node_id (PipelineFailed nid reason) = nid"
| "event_node_id ev = []"

text \<open>
  The callback given to the engine. \<open>a\<close> is the address of the list \<open>events\<close>; the last
  statement stores a fresh copy, \<open>list(events)\<close>, in the task's entry.
\<close>

definition on_event :: "string \<Rightarrow> nat \<Rightarrow> event \<Rightarrow> world \<Rightarrow> world" where
  "on_event task_id a ev w =
     (let h1 = (heap w)(a := heap w a @ [ev]);
          h2 = (case step_names (event_node_id ev) of
                  Some step \<Rightarrow> h1(a := h1 a @ [Progress step (step_progress step) None])
                | None \<Rightarrow> h1)
      in case task_store w task_id of
           Some t \<Rightarrow>
             w\<lparr>task_store := (task_store w)(task_id \<mapsto> t\<lparr>t_events := fresh w\<rparr>),
               heap := h2(fresh w := h2 a),
               fresh := Suc (fresh w)\<rparr>
         | None \<Rightarrow> w\<lparr>heap := h2\<rparr>)"

definition get_string :: "Context \<Rightarrow> string \<Rightarrow> string" where
  "get_string ctx key = (case ctx key of None \<Rightarrow> [] | Some v \<Rightarrow> py_str v)"

text \<open>An assignment \<open>_task_store[task_id][field] = value\<close>; the entry was registered before.\<close>

definition modify_task :: "string \<Rightarrow> (task \<Rightarrow> task) \<Rightarrow> world \<Rightarrow> world" where
  "modify_task task_id f w =
     (case task_store w task_id of
        Some t \<Rightarrow> w\<lparr>task_store := (task_store w)(task_id \<mapsto> f t)\<rparr>
      | None \<Rightarrow> w)"

definition append_event :: "nat \<Rightarrow> event \<Rightarrow> world \<Rightarrow> world" where
  "append_event a ev w = w\<lparr>heap := (heap w)(a := heap w a @ [ev])\<rparr>"

definition events_of :: "run_result \<Rightarrow> event list" where
  "events_of r = (case r of Raised e st \<Rightarrow> emitted st | Returned oc st \<Rightarrow> emitted st)"

text \<open>The \<open>try\<close> statement of \<open>run_task\<close>, once the engine has returned or raised.\<close>

definition complete_task :: "string \<Rightarrow> nat \<Rightarrow> run_result \<Rightarrow> world \<Rightarrow> world" where
  "complete_task task_id a r w =
     (case r of
        Returned oc st \<Rightarrow>
          (let res = RunResult (get_string (run_ctx st) ''feishu_doc_url'')
                               (get_string (run_ctx st) ''feishu_document_id'')
                               (if status oc = SUCCESS then ''success'' else ''failed'')
                               (failure_reason oc)
           in append_event a (Progress ''publishing'' 100 (Some res))
                (modify_task task_id (\<lambda>t. t\<lparr>t_status := ''completed''\<rparr>)
                   (modify_task task_id (\<lambda>t. t\<lparr>t_result := Some res\<rparr>) w)))
      | Raised e st \<Rightarrow>
          append_event a (ErrorEvent (str_error e))
            (modify_task task_id (\<lambda>t. t\<lparr>t_result := Some (FailedResult (str_error e))\<rparr>)
               (modify_task task_id (\<lambda>t. t\<lparr>t_status := ''failed''\<rparr>) w)))"

text \<open>
  \<open>run_task\<close> for a task id, a seeded context and the parsed pipeline graph: register the
  task with the new list \<open>events\<close>, run the engine, whose events reach \<open>on_event\<close> in the
  order they are emitted, and complete the task. \<open>None\<close>: the engine never returns.
\<close>

definition run_task :: "handlers \<Rightarrow> graph \<Rightarrow> Context \<Rightarrow> string \<Rightarrow> world \<Rightarrow> world option" where
  "run_task H g ctx0 task_id w0 =
     (let a = fresh w0;
          w1 = w0\<lparr>task_store := (task_store w0)(task_id \<mapsto>
                       \<lparr>t_status = ''running'', t_events = a, t_result = None\<rparr>),
                  heap := (heap w0)(a := []),
                  fresh := Suc a\<rparr>
      in case run H g ctx0 of
           None \<Rightarrow> None
         | Some r \<Rightarrow> Some (complete_task task_id a r (fold (on_event task_id a) (events_of r) w1)))"

text \<open>What \<open>get_task\<close> shows of a task: its status, its events and its result.\<close>

definition task_events :: "world \<Rightarrow> string \<Rightarrow> event list" where
  "task_events w task_id = (case task_store w task_id of None \<Rightarrow> [] | Some t \<Rightarrow> heap w (t_events t))"

definition task_status :: "world \<Rightarrow> string \<Rightarrow> string" where
  "task_status w task_id = (case task_store w task_id of None \<Rightarrow> [] | Some t \<Rightarrow> t_status t)"

section \<open>Notions used in the statements\<close>

text \<open>
  The label rule in the words of the specification: trim, lowercase, then remove one
  leading accelerator prefix \<open>[X] \<close>, \<open>X) \<close> or \<open>X - \<close>, where \<open>X\<close> is one character.
  \<open>accelerator_length\<close> is the length of such a prefix, or 0.
\<close>

definition accelerator_length :: "string \<Rightarrow> nat" where
  "accelerator_length s =
     (if length s \<ge> 4 \<and> s ! 0 = CHR ''['' \<and> s ! 2 = CHR '']'' \<and> s ! 3 = CHR '' '' then 4
      else if length s \<ge> 3 \<and> s ! 1 = CHR '')'' \<and> s ! 2 = CHR '' '' then 3
      else if length s \<ge> 4 \<and> s ! 1 = CHR '' '' \<and> s ! 2 = CHR ''-'' \<and> s ! 3 = CHR '' '' then 4
      else 0)"

definition normalize_label_spec :: "string \<Rightarrow> string" where
  "normalize_label_spec lbl =
     (let s = py_lower (py_strip lbl) in py_strip (drop (accelerator_length s) s))"

text \<open>
  The label rule as amended. After trimming and lowercasing, three strips are made in
  this order, each followed by a trim: when the text starts with an opening bracket and
  a closing bracket is among its first four characters, the text up to and including
  the first closing bracket is removed; then, when the second character is a closing
  parenthesis, the first two characters are removed; then, when the second and third
  characters are a space and a dash, the first three characters are removed.
  \<open>first_close s\<close> is the position of the first closing bracket of \<open>s\<close>, or the length
  of \<open>s\<close> when it has none.
\<close>

definition first_close :: "string \<Rightarrow> nat" where
  "first_close s = length (takeWhile (\<lambda>c. c \<noteq> CHR '']'') s)"

definition normalize_label_amended :: "string \<Rightarrow> string" where
  "normalize_label_amended lbl =
     (let s0 = py_lower (py_strip lbl);
          s1 = (if s0 \<noteq> [] \<and> s0 ! 0 = CHR ''['' \<and> first_close s0 < 4 \<and> first_close s0 < length s0
                then py_strip (drop (first_close s0 + 1) s0) else s0);
          s2 = (if length s1 \<ge> 2 \<and> s1 ! 1 = CHR '')'' then py_strip (drop 2 s1) else s1);
          s3 = (if length s2 \<ge> 3 \<and> s2 ! 1 = CHR '' '' \<and> s2 ! 2 = CHR ''-''
                then py_strip (drop 3 s2) else s2)
      in s3)"

text \<open>
  \<open>best_in e grp\<close>: \<open>e\<close> is an edge of the group that comes first by weight descending,
  then destination ascending. \<open>is_first P x xs\<close>: \<open>x\<close> is the first element of \<open>xs\<close>, in
  the order of the list, that satisfies \<open>P\<close>. \<open>first_hit ids e es\<close>: \<open>e\<close> is the first edge
  going to the first of the ids \<open>ids\<close> that some edge goes to.
\<close>

definition best_in :: "edge \<Rightarrow> edge list \<Rightarrow> bool" where
  "best_in e grp =
     (e \<in> set grp \<and>
      (\<forall>e' \<in> set grp. weight e' < weight e \<or> (weight e' = weight e \<and> to_node e \<le> to_node e')))"

definition is_first :: "('a \<Rightarrow> bool) \<Rightarrow> 'a \<Rightarrow> 'a list \<Rightarrow> bool" where
  "is_first P x xs = (\<exists>i < length xs. xs ! i = x \<and> P x \<and> (\<forall>j < i. \<not> P (xs ! j)))"

definition first_hit :: "string list \<Rightarrow> edge \<Rightarrow> edge list \<Rightarrow> bool" where
  "first_hit ids e es =
     (\<exists>k < length ids.
        (\<forall>m < k. \<forall>e' \<in> set es. to_node e' \<noteq> ids ! m) \<and>
        is_first (\<lambda>e'. to_node e' = ids ! k) e es)"

text \<open>
  \<open>steps H g k st\<close>: the state after \<open>k\<close> passes of the engine's loop from \<open>st\<close>, when
  each of them goes on to a next node. \<open>unsatisfied g (nid, oc)\<close>: the node \<open>nid\<close> of the
  graph is goal-gated and its recorded Outcome \<open>oc\<close> is neither SUCCESS nor
  PARTIAL_SUCCESS.
\<close>

fun steps :: "handlers \<Rightarrow> graph \<Rightarrow> nat \<Rightarrow> run_state \<Rightarrow> run_state option" where
  "steps H g 0 st = Some st"
| "steps H g (Suc k) st =
     (case engine_step H g st of
        Continue st' \<Rightarrow> steps H g k st'
      | Stop r \<Rightarrow> None)"

definition unsatisfied :: "graph \<Rightarrow> string \<times> outcome \<Rightarrow> bool" where
  "unsatisfied g p =
     ((case get_node g (fst p) of None \<Rightarrow> False | Some n \<Rightarrow> goal_gate n) \<and>
      status (snd p) \<noteq> SUCCESS \<and> status (snd p) \<noteq> PARTIAL_SUCCESS)"

section \<open>Building graphs\<close>

text \<open>The constructors of the dataclasses, with the defaults of the fields left out.\<close>

definition Edge :: "string \<Rightarrow> string \<Rightarrow> string \<Rightarrow> string \<Rightarrow> int \<Rightarrow> edge" where
  "Edge f t l c w = \<lparr>from_node = f, to_node = t, label = l, condition = c, weight = w\<rparr>"

definition Node :: "string \<Rightarrow> string \<Rightarrow> (string \<rightharpoonup> pyval) \<Rightarrow> node" where
  "Node i sh at =
     \<lparr>n_id = i, n_label = [], n_shape = sh, n_type = [], n_prompt = [], n_attrs = at\<rparr>"

definition Graph :: "(string \<times> node) list \<Rightarrow> edge list \<Rightarrow> graph" where
  "Graph ns es =
     \<lparr>g_name = [], goal = [], g_label = [], nodes = ns, edges = es, graph_attrs = Map.empty\<rparr>"

section \<open>The graph parser (\<open>dot_parser.py\<close>)\<close>

text \<open>
  The regular expressions of the parser are written out as matching functions. Each
  returns the groups that the source reads and the end of the match, as \<open>re.match\<close>
  does, or \<open>None\<close>. \<open>\w\<close> is taken on ASCII: letters, digits and the underscore.
\<close>

definition is_word :: "char \<Rightarrow> bool" where
  "is_word c = (c \<in> set (''abcdefghijklmnopqrstuvwxyz'' @ ''ABCDEFGHIJKLMNOPQRSTUVWXYZ'' @
                           ''0123456789_''))"

definition endswith :: "string \<Rightarrow> string \<Rightarrow> bool" where
  "endswith p s = startswith (rev p) (rev s)"

text \<open>
  \<open>_strip_comments\<close>: \<open>re.sub\<close> of \<open>//[^\n]*\<close> and then of \<open>/\*.*?\*/\<close>. The first
  argument counts the characters of the current match that are still to be dropped.
\<close>

fun strip_line_comments :: "nat \<Rightarrow> string \<Rightarrow> string" where
  "strip_line_comments k [] = []"
| "strip_line_comments k (c # cs) =
     (if k > 0 then strip_line_comments (k - 1) cs
      else if startswith ''//'' (c # cs)
      then strip_line_comments (length (takeWhile (\<lambda>x. x \<noteq> CHR 0x0A) cs)) cs
      else c # strip_line_comments 0 cs)"

fun strip_block_comments :: "nat \<Rightarrow> string \<Rightarrow> string" where
  "strip_block_comments k [] = []"
| "strip_block_comments k (c # cs) =
     (if k > 0 then strip_block_comments (k - 1) cs
      else if startswith ''/*'' (c # cs)
      then (case split_first ''*/'' (drop 2 (c # cs)) of
              Some (inside, after) \<Rightarrow> strip_block_comments (length inside + 3) cs
            | None \<Rightarrow> c # strip_block_comments 0 cs)
      else c # strip_block_comments 0 cs)"

definition strip_comments :: "string \<Rightarrow> string" where
  "strip_comments text = strip_block_comments 0 (strip_line_comments 0 text)"

text \<open>
  \<open>_parse_value\<close>. \<open>str.replace\<close> of a two-character text by one character; \<open>int()\<close> of
  a text, which accepts a sign and digits with single underscores between them; \<open>float()\<close>
  is a parameter, \<open>fl s\<close> being the float read from \<open>s\<close> as \<open>PyFloat\<close> holds it, or
  \<open>None\<close> where \<open>float()\<close> raises.
\<close>

fun replace2 :: "char \<Rightarrow> char \<Rightarrow> char \<Rightarrow> string \<Rightarrow> string" where
  "replace2 a b r (x # y # zs) =
     (if x = a \<and> y = b then r # replace2 a b r zs else x # replace2 a b r (y # zs))"
| "replace2 a b r xs = xs"

definition unescape :: "string \<Rightarrow> string" where
  "unescape s =
     replace2 (CHR 0x5C) (CHR 0x5C) (CHR 0x5C)
       (replace2 (CHR 0x5C) (CHR 0x22) (CHR 0x22)
          (replace2 (CHR 0x5C) (CHR ''t'') (CHR 0x09)
             (replace2 (CHR 0x5C) (CHR ''n'') (CHR 0x0A) s)))"

definition is_digit :: "char \<Rightarrow> bool" where
  "is_digit c = (c \<in> set ''0123456789'')"

definition digit_val :: "char \<Rightarrow> nat" where
  "digit_val c = length (takeWhile (\<lambda>d. d \<noteq> c) ''0123456789'')"

fun digits_val :: "nat \<Rightarrow> string \<Rightarrow> nat option" where
  "digits_val acc [] = Some acc"
| "digits_val acc (c # cs) =
     (if is_digit c then digits_val (10 * acc + digit_val c) cs
      else if c = CHR ''_'' \<and> cs \<noteq> [] \<and> is_digit (hd cs) then digits_val acc cs
      else None)"

definition parse_nat :: "string \<Rightarrow> nat option" where
  "parse_nat s = (if s \<noteq> [] \<and> is_digit (hd s) then digits_val 0 s else None)"

definition parse_int :: "string \<Rightarrow> int option" where
  "parse_int s0 =
     (let s = py_strip s0 in
      if startswith ''-'' s then map_option (\<lambda>n. - int n) (parse_nat (tl s))
      else if startswith ''+'' s then map_option int (parse_nat (tl s))
      else map_option int (parse_nat s))"

type_synonym float_reader = "string \<Rightarrow> (string \<times> bool \<times> int option) option"

definition parse_value :: "float_reader \<Rightarrow> string \<Rightarrow> pyval" where
  "parse_value fl s0 =
     (let s = py_strip s0 in
      if startswith [CHR 0x22] s \<and> endswith [CHR 0x22] s then PyStr (unescape (butlast (tl s)))
      else if py_lower s = ''true'' then PyBool True
      else if py_lower s = ''false'' then PyBool False
      else (case parse_int s of
              Some i \<Rightarrow> PyInt i
            | None \<Rightarrow>
               (case fl s of
                  Some (t, b, i) \<Rightarrow> PyFloat t b i
                | None \<Rightarrow> PyStr s)))"

text \<open>\<open>_parse_attr_block\<close>: the loop over the characters, \<open>cur\<close> being \<open>current\<close> reversed.\<close>

definition add_part :: "float_reader \<Rightarrow> string \<Rightarrow> (string \<rightharpoonup> pyval) \<Rightarrow> (string \<rightharpoonup> pyval)" where
  "add_part fl part0 attrs =
     (let part = py_strip part0 in
      case split_first ''='' part of
        Some (k, v) \<Rightarrow> attrs(py_strip k \<mapsto> parse_value fl (py_strip v))
      | None \<Rightarrow> attrs)"

fun attr_scan ::
  "float_reader \<Rightarrow> string \<Rightarrow> string \<Rightarrow> bool \<Rightarrow> (string \<rightharpoonup> pyval) \<Rightarrow> (string \<rightharpoonup> pyval)" where
  "attr_scan fl [] cur in_quote attrs =
     (if cur \<noteq> [] then add_part fl (rev cur) attrs else attrs)"
| "attr_scan fl (c # cs) cur in_quote attrs =
     (if c = CHR 0x22 \<and> (cur = [] \<or> hd cur \<noteq> CHR 0x5C)
      then attr_scan fl cs (c # cur) (\<not> in_quote) attrs
      else if c = CHR '','' \<and> \<not> in_quote
      then attr_scan fl cs [] in_quote (add_part fl (rev cur) attrs)
      else attr_scan fl cs (c # cur) in_quote attrs)"

definition parse_attr_block :: "float_reader \<Rightarrow> string \<Rightarrow> (string \<rightharpoonup> pyval)" where
  "parse_attr_block fl content0 =
     (let content = py_strip content0 in
      if content = [] \<or> content = ''[]'' then Map.empty
      else attr_scan fl (py_strip (butlast (tl content))) [] False Map.empty)"

text \<open>\<open>digraph\s+(\w+)\s*\{\<close>: the name and the end of the match.\<close>

definition match_digraph :: "string \<Rightarrow> (string \<times> nat) option" where
  "match_digraph text =
     (if startswith ''digraph'' text then
        (let r1 = drop 7 text;
             ws1 = takeWhile is_space r1; r2 = dropWhile is_space r1;
             name = takeWhile is_word r2; r3 = dropWhile is_word r2;
             ws2 = takeWhile is_space r3; r4 = dropWhile is_space r3
         in if ws1 \<noteq> [] \<and> name \<noteq> [] \<and> startswith ''{'' r4
            then Some (name, 7 + length ws1 + length name + length ws2 + 1)
            else None)
      else None)"

text \<open>\<open>kw\s*\[(.*?)\]\<close> for the keywords \<open>graph\<close>, \<open>node\<close> and \<open>edge\<close>.\<close>

definition match_block :: "string \<Rightarrow> string \<Rightarrow> (string \<times> nat) option" where
  "match_block kw rest =
     (if startswith kw rest then
        (let r1 = drop (length kw) rest;
             ws = takeWhile is_space r1; r2 = dropWhile is_space r1
         in if startswith ''['' r2
            then (case split_first '']'' (tl r2) of
                    Some (inner, after) \<Rightarrow> Some (inner, length kw + length ws + length inner + 2)
                  | None \<Rightarrow> None)
            else None)
      else None)"

text \<open>
  \<open>(\w+)\s*=\s*([^;]+);?\<close>. When nothing but white space stands between \<open>=\<close> and the
  semicolon or the end, \<open>\s*\<close> gives its last character back to \<open>[^;]+\<close>.
\<close>

definition match_decl :: "string \<Rightarrow> (string \<times> string \<times> nat) option" where
  "match_decl rest =
     (let k = takeWhile is_word rest; r1 = dropWhile is_word rest;
          ws1 = takeWhile is_space r1; r2 = dropWhile is_space r1
      in if k \<noteq> [] \<and> startswith ''='' r2 then
           (let r3 = tl r2;
                ws2 = takeWhile is_space r3; r4 = dropWhile is_space r3;
                v = takeWhile (\<lambda>c. c \<noteq> CHR '';'') r4; r5 = dropWhile (\<lambda>c. c \<noteq> CHR '';'') r4;
                semi = (if startswith '';'' r5 then 1 else 0)
            in if v \<noteq> [] then Some (k, v, length k + length ws1 + 1 + length ws2 + length v + semi)
               else if ws2 \<noteq> [] then Some (k, [last ws2], length k + length ws1 + 1 + length ws2 + semi)
               else None)
         else None)"

text \<open>\<open>(\w+)\s*\[\<close>, and the scan for the closing bracket outside quotes that follows it.\<close>

definition match_node_start :: "string \<Rightarrow> (string \<times> nat) option" where
  "match_node_start rest =
     (let nid = takeWhile is_word rest; r1 = dropWhile is_word rest;
          ws = takeWhile is_space r1; r2 = dropWhile is_space r1
      in if nid \<noteq> [] \<and> startswith ''['' r2 then Some (nid, length nid + length ws + 1)
         else None)"

fun find_close :: "char \<Rightarrow> bool \<Rightarrow> nat \<Rightarrow> string \<Rightarrow> nat option" where
  "find_close prev in_quote i [] = None"
| "find_close prev in_quote i (c # cs) =
     (if c = CHR 0x22 \<and> prev \<noteq> CHR 0x5C then find_close c (\<not> in_quote) (i + 1) cs
      else if c = CHR '']'' \<and> \<not> in_quote then Some i
      else find_close c in_quote (i + 1) cs)"

text \<open>
  The tail \<open>(\s*\[(.*?)\])?;?\<close> of the two edge expressions: the text of the bracket
  group when it matched, and the length of what the tail matched.
\<close>

definition attr_tail :: "string \<Rightarrow> string option \<times> nat" where
  "attr_tail r =
     (let ws = takeWhile is_space r; r2 = dropWhile is_space r
      in case (if startswith ''['' r2 then split_first '']'' (tl r2) else None) of
           Some (inner, after) \<Rightarrow>
             (Some inner, length ws + length inner + 2 + (if startswith '';'' after then 1 else 0))
         | None \<Rightarrow> (None, if startswith '';'' r then 1 else 0))"

text \<open>\<open>(\w+)\s*->\s*(\w+)(\s*\[(.*?)\])?;?\<close>: groups 1, 2 and 4 and the end.\<close>

definition match_edge :: "string \<Rightarrow> (string \<times> string \<times> string option \<times> nat) option" where
  "match_edge rest =
     (let f = takeWhile is_word rest; r1 = dropWhile is_word rest;
          ws1 = takeWhile is_space r1; r2 = dropWhile is_space r1
      in if f \<noteq> [] \<and> startswith ''->'' r2 then
           (let r3 = drop 2 r2;
                ws2 = takeWhile is_space r3; r4 = dropWhile is_space r3;
                t = takeWhile is_word r4; r5 = dropWhile is_word r4
            in if t \<noteq> []
               then Some (f, t, fst (attr_tail r5),
                          length f + length ws1 + 2 + length ws2 + length t + snd (attr_tail r5))
               else None)
         else None)"

text \<open>
  \<open>->\s*(\w+)(\s*\[(.*?)\])?;?\<close>: group 1 and the end. It matches exactly where the loop
  test \<open>->\s*\w+\<close> does. The source does not read its bracket group.
\<close>

definition match_arrow :: "string \<Rightarrow> (string \<times> nat) option" where
  "match_arrow rc =
     (if startswith ''->'' rc then
        (let r3 = drop 2 rc;
             ws2 = takeWhile is_space r3; r4 = dropWhile is_space r3;
             t = takeWhile is_word r4; r5 = dropWhile is_word r4
         in if t \<noteq> [] then Some (t, 2 + length ws2 + length t + snd (attr_tail r5)) else None)
      else None)"

text \<open>\<open>(\w+)\s*;?\s*\<close>.\<close>

definition match_node_bare :: "string \<Rightarrow> (string \<times> nat) option" where
  "match_node_bare rest =
     (let nid = takeWhile is_word rest; r1 = dropWhile is_word rest;
          ws1 = takeWhile is_space r1; r2 = dropWhile is_space r1;
          semi = (if startswith '';'' r2 then 1 else 0);
          ws2 = takeWhile is_space (drop semi r2)
      in if nid \<noteq> [] then Some (nid, length nid + length ws1 + semi + length ws2) else None)"

text \<open>
  \<open>int()\<close> of an attribute value. The texts of the messages are abridged.
\<close>

fun py_int :: "pyval \<Rightarrow> error + int" where
  "py_int (PyInt i) = Inr i"
| "py_int (PyBool b) = Inr (if b then 1 else 0)"
| "py_int (PyStr s) =
     (case parse_int s of
        Some i \<Rightarrow> Inr i
      | None \<Rightarrow> Inl (ValueError ''invalid literal for int()''))"
| "py_int (PyFloat s b i) =
     (case i of
        Some k \<Rightarrow> Inr k
      | None \<Rightarrow> Inl (OtherError ''cannot convert float to integer''))"
| "py_int (PyObj s b) = Inl (OtherError ''int() argument must be a string or a number'')"

text \<open>The state of the parser: the graph under construction and the two default blocks.\<close>

record pstate =
  pg :: graph
  node_defaults :: "string \<rightharpoonup> pyval"
  edge_defaults :: "string \<rightharpoonup> pyval"

definition attr_str :: "(string \<rightharpoonup> pyval) \<Rightarrow> string \<Rightarrow> string \<Rightarrow> string" where
  "attr_str attrs key dflt = (case attrs key of None \<Rightarrow> dflt | Some v \<Rightarrow> py_str v)"

definition make_node :: "string \<Rightarrow> (string \<rightharpoonup> pyval) \<Rightarrow> node" where
  "make_node nid attrs =
     \<lparr>n_id = nid,
      n_label = attr_str attrs ''label'' nid,
      n_shape = attr_str attrs ''shape'' ''box'',
      n_type = attr_str attrs ''type'' [],
      n_prompt = attr_str attrs ''prompt'' [],
      n_attrs = attrs\<rparr>"

definition add_node :: "string \<Rightarrow> (string \<rightharpoonup> pyval) \<Rightarrow> graph \<Rightarrow> graph" where
  "add_node nid attrs g =
     (if map_of (nodes g) nid = None
      then g\<lparr>nodes := nodes g @ [(nid, make_node nid attrs)]\<rparr>
      else g)"

text \<open>
  The loop over a chain. \<open>mk\<close> builds an edge from the attributes of the first edge of
  the chain, which the loop uses for every further edge; \<open>pos\<close> grows by the end of each
  match, taken in the text after its leading white space was stripped.
\<close>

function chain_loop ::
  "string \<Rightarrow> (string \<Rightarrow> string \<Rightarrow> edge) \<Rightarrow> string \<Rightarrow> nat \<Rightarrow> edge list \<Rightarrow> nat \<times> edge list" where
  "chain_loop rest mk to_id pos acc =
     (case match_arrow (py_lstrip (drop pos rest)) of
        Some (next_id, e) \<Rightarrow> chain_loop rest mk next_id (pos + e) (acc @ [mk to_id next_id])
      | None \<Rightarrow> (pos, acc))"
  by pat_completeness auto

termination
proof (relation "measure (\<lambda>(rest, mk, to_id, pos, acc). length rest - pos)")
  show "wf (measure (\<lambda>(rest, mk, to_id, pos, acc). length rest - pos))"
    by simp
next
  fix rest :: string and mk :: "string \<Rightarrow> string \<Rightarrow> edge" and to_id :: string
    and pos :: nat and acc :: "edge list" and x2 next_id e
  assume "match_arrow (py_lstrip (drop pos rest)) = Some x2" "(next_id, e) = x2"
  then have "match_arrow (py_lstrip (drop pos rest)) = Some (next_id, e)" by simp
  then have "py_lstrip (drop pos rest) \<noteq> []" "0 < e"
    by (auto simp: match_arrow_def Let_def startswith_def split: if_splits)
  then have "pos < length rest"
    by (cases "pos < length rest") (simp_all add: py_lstrip_def)
  with \<open>0 < e\<close>
  show "((rest, mk, next_id, pos + e, acc @ [mk to_id next_id]), (rest, mk, to_id, pos, acc))
        \<in> measure (\<lambda>(rest, mk, to_id, pos, acc). length rest - pos)"
    by simp
qed

text \<open>
  One pass of the statement loop on the text \<open>rest\<close>, which is not empty and starts
  with no white space: the new value of \<open>pos\<close> and the new state, or the exception of
  \<open>int()\<close> on a weight. The expressions are tried in the order of the source.
\<close>

definition parse_stmt :: "float_reader \<Rightarrow> nat \<Rightarrow> string \<Rightarrow> pstate \<Rightarrow> error + nat \<times> pstate" where
  "parse_stmt fl pos rest ps =
     (case match_block ''graph'' rest of
        Some (inner, e) \<Rightarrow>
          (let a = parse_attr_block fl (''['' @ inner @ '']'')
           in Inr (e, ps\<lparr>pg := (pg ps)\<lparr>graph_attrs := a,
                                           goal := attr_str a ''goal'' [],
                                           g_label := attr_str a ''label'' []\<rparr>\<rparr>))
      | None \<Rightarrow>
     (case match_decl rest of
        Some (k, v0, e) \<Rightarrow>
          (let v = parse_value fl (py_strip v0);
               g1 = (pg ps)\<lparr>graph_attrs := (graph_attrs (pg ps))(k \<mapsto> v)\<rparr>;
               g2 = (if k = ''goal'' then g1\<lparr>goal := py_str v\<rparr> else g1);
               g3 = (if k = ''label'' then g2\<lparr>g_label := py_str v\<rparr> else g2)
           in Inr (e, ps\<lparr>pg := g3\<rparr>))
      | None \<Rightarrow>
     (case match_block ''node'' rest of
        Some (inner, e) \<Rightarrow>
          Inr (e, ps\<lparr>node_defaults := parse_attr_block fl (''['' @ inner @ '']'')\<rparr>)
      | None \<Rightarrow>
     (case match_block ''edge'' rest of
        Some (inner, e) \<Rightarrow>
          Inr (e, ps\<lparr>edge_defaults := parse_attr_block fl (''['' @ inner @ '']'')\<rparr>)
      | None \<Rightarrow>
     (case match_node_start rest of
        Some (nid, e) \<Rightarrow>
          (case find_close (CHR ''['') False e (drop e rest) of
             Some i \<Rightarrow>
               (let attrs = node_defaults ps ++ parse_attr_block fl (slice (e - 1) (i + 1) rest)
                in Inr (i + 1, ps\<lparr>pg := add_node nid attrs (pg ps)\<rparr>))
           | None \<Rightarrow> Inr (length rest, ps))
      | None \<Rightarrow>
     (case match_edge rest of
        Some (from_id, to_id, a, e) \<Rightarrow>
          (let attrs = edge_defaults ps ++
                 (case a of
                    Some s \<Rightarrow> if s \<noteq> [] then parse_attr_block fl (''['' @ s @ '']'') else Map.empty
                  | None \<Rightarrow> Map.empty)
           in case py_int (case attrs ''weight'' of None \<Rightarrow> PyInt 0 | Some v \<Rightarrow> v) of
                Inl err \<Rightarrow> Inl err
              | Inr w \<Rightarrow>
                  (let mk = (\<lambda>f t. Edge f t (attr_str attrs ''label'' [])
                                            (attr_str attrs ''condition'' []) w);
                       r = chain_loop rest mk to_id e [mk from_id to_id]
                   in Inr (fst r, ps\<lparr>pg := (pg ps)\<lparr>edges := edges (pg ps) @ snd r\<rparr>\<rparr>)))
      | None \<Rightarrow>
     (case match_node_bare rest of
        Some (nid, e) \<Rightarrow>
          Inr (e, ps\<lparr>pg := add_node nid (node_defaults ps) (pg ps)\<rparr>)
      | None \<Rightarrow> Inr (pos + 1, ps))))))))"


text \<open>
  The statement loop. \<open>pos\<close> counts from the start of the text of the pass before; the
  pass cuts the text at \<open>pos\<close> and strips the leading white space.
\<close>

function parse_loop :: "float_reader \<Rightarrow> nat \<Rightarrow> string \<Rightarrow> pstate \<Rightarrow> error + pstate" where
  "parse_loop fl pos rest ps =
     (if pos < length rest then
        (if py_lstrip (drop pos rest) = [] then Inr ps
         else (case parse_stmt fl pos (py_lstrip (drop pos rest)) ps of
                 Inl err \<Rightarrow> Inl err
               | Inr (pos', ps') \<Rightarrow> parse_loop fl pos' (py_lstrip (drop pos rest)) ps'))
      else Inr ps)"
  by pat_completeness auto

definition empty_graph :: graph where
  "empty_graph =
     \<lparr>g_name = [], goal = [], g_label = [], nodes = [], edges = [], graph_attrs = Map.empty\<rparr>"

text \<open>\<open>parse_dot\<close> on the text of the source (reading a file is not modelled).\<close>

definition parse_dot :: "float_reader \<Rightarrow> string \<Rightarrow> error + graph" where
  "parse_dot fl source =
     (let text = py_strip (strip_comments source) in
      case match_digraph text of
        None \<Rightarrow> Inl (ValueError ''Expected digraph Identifier { ... }'')
      | Some (name, e) \<Rightarrow>
          (let r0 = py_rstrip (drop e text);
               rest = (if endswith ''}'' r0 then butlast r0 else r0)
           in case parse_loop fl 0 rest
                     \<lparr>pg = empty_graph\<lparr>g_name := name\<rparr>,
                      node_defaults = Map.empty, edge_defaults = Map.empty\<rparr> of
                Inl err \<Rightarrow> Inl err
              | Inr ps \<Rightarrow> Inr (pg ps)))"

section \<open>Termination of the statement loop of the parser\<close>

lemma chain_loop_ge: "pos \<le> fst (chain_loop rest mk to_id pos acc)"
proof (induction rest mk to_id pos acc rule: chain_loop.induct)
  case (1 rest mk to_id pos acc)
  show ?case
  proof (cases "match_arrow (py_lstrip (drop pos rest))")
    case None
    then show ?thesis by (subst chain_loop.simps) simp
  next
    case (Some p)
    obtain nx e where p: "p = (nx, e)" by (cases p)
    have "pos + e \<le> fst (chain_loop rest mk nx (pos + e) (acc @ [mk to_id nx]))"
      using "1.IH" Some p by simp
    then show ?thesis
      using Some p by (subst chain_loop.simps) simp
  qed
qed

lemma find_close_ge: "find_close prev q i s = Some j \<Longrightarrow> i \<le> j"
  by (induction prev q i s rule: find_close.induct) (auto split: if_splits)

lemma match_block_pos: "match_block kw rest = Some (a, e) \<Longrightarrow> 0 < e"
  by (auto simp: match_block_def Let_def split: if_splits option.splits)

lemma match_decl_pos: "match_decl rest = Some (k, v, e) \<Longrightarrow> 0 < e"
  by (auto simp: match_decl_def Let_def split: if_splits)

lemma match_node_bare_pos: "match_node_bare rest = Some (nid, e) \<Longrightarrow> 0 < e"
  by (auto simp: match_node_bare_def Let_def split: if_splits)

lemma match_edge_pos: "match_edge rest = Some (f, t, a, e) \<Longrightarrow> 0 < e"
  by (auto simp: match_edge_def Let_def split: if_splits)


lemma parse_stmt_progress:
  assumes "parse_stmt fl pos rest ps = Inr (pos', ps')" "rest \<noteq> []"
  shows "0 < pos'"
proof (cases "match_block ''graph'' rest")
  case (Some p)
  then show ?thesis
    using assms(1) match_block_pos [of "''graph''" rest]
    by (cases p) (auto simp: parse_stmt_def Let_def)
next
  case g: None
  show ?thesis
  proof (cases "match_decl rest")
    case (Some p)
    then show ?thesis
      using assms(1) g match_decl_pos [of rest]
      by (cases p) (auto simp: parse_stmt_def Let_def)
  next
    case d: None
    show ?thesis
    proof (cases "match_block ''node'' rest")
      case (Some p)
      then show ?thesis
        using assms(1) g d match_block_pos [of "''node''" rest]
        by (cases p) (auto simp: parse_stmt_def Let_def)
    next
      case nd: None
      show ?thesis
      proof (cases "match_block ''edge'' rest")
        case (Some p)
        then show ?thesis
          using assms(1) g d nd match_block_pos [of "''edge''" rest]
          by (cases p) (auto simp: parse_stmt_def Let_def)
      next
        case ed: None
        show ?thesis
        proof (cases "match_node_start rest")
          case (Some p)
          obtain nid e where p: "p = (nid, e)" by (cases p)
          show ?thesis
            using assms g d nd ed Some p
            by (auto simp: parse_stmt_def Let_def split: option.splits)
        next
          case ns: None
          show ?thesis
          proof (cases "match_edge rest")
            case (Some p)
            obtain f t a e where p: "p = (f, t, a, e)" by (cases p)
            have "0 < e" using Some p match_edge_pos by blast
            moreover have "e \<le> fst (chain_loop rest mk t e acc)" for mk acc
              by (rule chain_loop_ge)
            ultimately have "0 < fst (chain_loop rest mk t e acc)" for mk acc
              using less_le_trans by blast
            then show ?thesis
              using assms(1) g d nd ed ns Some p
              by (auto simp: parse_stmt_def Let_def split: sum.splits)
          next
            case me: None
            show ?thesis
            proof (cases "match_node_bare rest")
              case (Some p)
              then show ?thesis
                using assms(1) g d nd ed ns me match_node_bare_pos [of rest]
                by (cases p) (auto simp: parse_stmt_def Let_def)
            next
              case None
              then show ?thesis
                using assms(1) g d nd ed ns me
                by (auto simp: parse_stmt_def)
            qed
          qed
        qed
      qed
    qed
  qed
qed

termination parse_loop
proof (relation "measure (\<lambda>(fl, pos, rest, ps). length rest - pos)")
  show "wf (measure (\<lambda>(fl, pos, rest, ps). length rest - pos))"
    by simp
next
  fix fl :: float_reader and pos :: nat and rest :: string and ps :: pstate
    and x2 :: "nat \<times> pstate" and pos' :: nat and ps' :: pstate
  assume a: "pos < length rest" "py_lstrip (drop pos rest) \<noteq> []"
    "parse_stmt fl pos (py_lstrip (drop pos rest)) ps = Inr x2" "(pos', ps') = x2"
  define k where "k = length (py_lstrip (drop pos rest))"
  have "0 < pos'"
    using a parse_stmt_progress [of fl pos "py_lstrip (drop pos rest)" ps pos' ps'] by simp
  moreover have "k \<le> length rest - pos"
    unfolding k_def py_lstrip_def using length_dropWhile_le [of is_space "drop pos rest"] by simp
  moreover have "0 < k"
    unfolding k_def using a(2) by simp
  ultimately have "k - pos' < length rest - pos"
    by arith
  then show "((fl, pos', py_lstrip (drop pos rest), ps'), (fl, pos, rest, ps))
        \<in> measure (\<lambda>(fl, pos, rest, ps). length rest - pos)"
    by (simp add: k_def)
qed

section \<open>Facts about the string functions\<close>

lemmas str_eval = py_strip_def py_rstrip_def py_lstrip_def is_space_def startswith_def
  py_lower_def lower_char_def slice_def contains_def strip_quotes_def

lemma py_strip_idem: "py_strip (py_strip s) = py_strip s"
proof -
  define t where "t = dropWhile is_space s"
  define u where "u = rev (dropWhile is_space (rev t))"
  have u: "py_strip s = u"
    by (simp add: py_strip_def py_rstrip_def py_lstrip_def t_def u_def)
  have right: "dropWhile is_space (rev u) = rev u"
    by (simp add: u_def)
  have left: "dropWhile is_space u = u"
  proof (cases "u = []")
    case True
    then show ?thesis by simp
  next
    case False
    have "rev t = takeWhile is_space (rev t) @ dropWhile is_space (rev t)"
      by simp
    then have "t = u @ rev (takeWhile is_space (rev t))"
      unfolding u_def by (metis rev_append rev_rev_ident)
    with False have "hd u = hd t" and "t \<noteq> []"
      by (metis hd_append2, metis append_is_Nil_conv)
    moreover have "\<not> is_space (hd t)" if "t \<noteq> []"
      using that unfolding t_def by (rule hd_dropWhile)
    ultimately have "\<not> is_space (hd u)" by simp
    then show ?thesis by (simp add: dropWhile_eq_self_iff)
  qed
  show ?thesis
    unfolding u by (simp add: py_strip_def py_rstrip_def py_lstrip_def left right)
qed

lemma split_first_single: "c \<notin> set xs \<Longrightarrow> split_first [c] (xs @ c # r) = Some (xs, r)"
  by (induction xs) (auto simp: startswith_def)

lemma split_first_none: "(split_first [c] t = None) = (c \<notin> set t)"
  by (induction t) (auto simp: startswith_def split: option.splits)

lemma paren_test: "(length t \<ge> 2 \<and> slice 1 2 t = '')'') = (length t \<ge> 2 \<and> t ! 1 = CHR '')'')"
  by (cases t; cases "tl t") (auto simp: slice_def)

lemma dash_test:
  "(length t \<ge> 3 \<and> slice 1 3 t = '' -'') = (length t \<ge> 3 \<and> t ! 1 = CHR '' '' \<and> t ! 2 = CHR ''-'')"
  by (cases t; cases "tl t"; cases "tl (tl t)") (auto simp: slice_def)

lemma slice_0: "slice 0 k s = take k s"
  by (simp add: slice_def)

lemma is_space_lower_char: "is_space (lower_char c) = is_space c"
proof (cases "map_of (zip ''ABCDEFGHIJKLMNOPQRSTUVWXYZ'' ''abcdefghijklmnopqrstuvwxyz'') c")
  case None
  then show ?thesis by (simp add: lower_char_def)
next
  case (Some l)
  then have "(c, l) \<in> set (zip ''ABCDEFGHIJKLMNOPQRSTUVWXYZ'' ''abcdefghijklmnopqrstuvwxyz'')"
    by (rule map_of_SomeD)
  then have "\<not> is_space c \<and> \<not> is_space l"
    by (auto simp: is_space_def)
  then show ?thesis using Some by (simp add: lower_char_def)
qed

lemma py_strip_lower: "py_strip (py_lower s) = py_lower (py_strip s)"
proof -
  have comp: "is_space \<circ> lower_char = is_space"
    by (rule ext) (simp add: is_space_lower_char)
  have l: "dropWhile is_space (map lower_char xs) = map lower_char (dropWhile is_space xs)" for xs
    by (simp add: dropWhile_map comp)
  show ?thesis
    by (simp add: py_strip_def py_rstrip_def py_lstrip_def py_lower_def l rev_map)
qed

lemma split_first_takeWhile:
  assumes "c \<in> set s"
  shows "split_first [c] s =
           Some (takeWhile (\<lambda>x. x \<noteq> c) s, drop (length (takeWhile (\<lambda>x. x \<noteq> c) s) + 1) s)"
proof -
  let ?a = "takeWhile (\<lambda>x. x \<noteq> c) s"
  let ?b = "dropWhile (\<lambda>x. x \<noteq> c) s"
  have ne: "?b \<noteq> []" using assms by (simp add: dropWhile_eq_Nil_conv) 
  then have "hd ?b = c" using hd_dropWhile [of "\<lambda>x. x \<noteq> c" s] by simp
  with ne have b: "?b = c # tl ?b" by (cases ?b) simp_all
  have "c \<notin> set ?a" using set_takeWhileD by fastforce
  then have "split_first [c] (?a @ c # tl ?b) = Some (?a, tl ?b)"
    by (rule split_first_single)
  moreover have "?a @ c # tl ?b = s" using b takeWhile_dropWhile_id [of "\<lambda>x. x \<noteq> c" s] by simp
  moreover have "tl ?b = drop (length ?a + 1) s"
    by (simp add: dropWhile_eq_drop drop_Suc tl_drop)
  ultimately show ?thesis by simp
qed

lemma mem_take_iff:
  "(c \<in> set (take k s)) =
     (length (takeWhile (\<lambda>x. x \<noteq> c) s) < k \<and> length (takeWhile (\<lambda>x. x \<noteq> c) s) < length s)"
proof (induction s arbitrary: k)
  case Nil
  then show ?case by simp
next
  case (Cons x xs)
  show ?case
  proof (cases k)
    case 0
    then show ?thesis by simp
  next
    case (Suc k')
    then show ?thesis using Cons.IH [of k'] by auto
  qed
qed

lemma strip_bracket_amended:
  "strip_bracket s =
     (if s \<noteq> [] \<and> s ! 0 = CHR ''['' \<and> first_close s < 4 \<and> first_close s < length s
      then py_strip (drop (first_close s + 1) s) else s)"
proof -
  have sw: "startswith ''['' s = (s \<noteq> [] \<and> s ! 0 = CHR ''['')"
    by (cases s) (simp_all add: startswith_def)
  have ct: "contains '']'' (slice 0 4 s) = (first_close s < 4 \<and> first_close s < length s)"
    unfolding contains_def slice_0 first_close_def
    using split_first_none [of "CHR '']''" "take 4 s"] mem_take_iff [of "CHR '']''" 4 s]
    by auto
  show ?thesis
  proof (cases "s \<noteq> [] \<and> s ! 0 = CHR ''['' \<and> first_close s < 4 \<and> first_close s < length s")
    case True
    then have "CHR '']'' \<in> set (take 4 s)"
      using mem_take_iff [of "CHR '']''" 4 s] by (simp add: first_close_def)
    then have "CHR '']'' \<in> set s" by (rule in_set_takeD)
    then have sf: "split_first '']'' s =
        Some (takeWhile (\<lambda>x. x \<noteq> CHR '']'') s, drop (first_close s + 1) s)"
      unfolding first_close_def by (rule split_first_takeWhile)
    have c: "startswith ''['' s \<and> contains '']'' (slice 0 4 s)"
      using True sw ct by blast
    have "strip_bracket s = py_strip (drop (first_close s + 1) s)"
      unfolding strip_bracket_def by (simp only: c sf if_True simp_thms option.case prod.case)
    then show ?thesis
      by (simp only: True if_True simp_thms)
  next
    case False
    have c: "\<not> (startswith ''['' s \<and> contains '']'' (slice 0 4 s))"
      using False sw ct by blast
    have "strip_bracket s = s"
      unfolding strip_bracket_def by (rule if_not_P [OF c])
    then show ?thesis
      by (subst if_not_P [OF False])
  qed
qed

lemma strip_paren_amended:
  "strip_paren s = (if length s \<ge> 2 \<and> s ! 1 = CHR '')'' then py_strip (drop 2 s) else s)"
  unfolding strip_paren_def using paren_test [of s] by (simp only:)

lemma strip_dash_amended:
  "strip_dash s =
     (if length s \<ge> 3 \<and> s ! 1 = CHR '' '' \<and> s ! 2 = CHR ''-'' then py_strip (drop 3 s) else s)"
  unfolding strip_dash_def using dash_test [of s] by (simp only:)

lemma strip_steps_trimmed:
  assumes "py_strip s = s"
  shows "py_strip (strip_bracket s) = strip_bracket s"
    and "py_strip (strip_paren s) = strip_paren s"
    and "py_strip (strip_dash s) = strip_dash s"
  using assms
  by (simp_all add: strip_bracket_def strip_paren_def strip_dash_def py_strip_idem
        split: option.splits)

section \<open>Facts about the loops and the sort of \<open>select_edge\<close>\<close>

lemma first_label_match_find:
  "first_label_match pl es = find (\<lambda>e. normalize_label (label e) = pl) es"
  by (induction es) simp_all

lemma first_to_node_find: "first_to_node sid es = find (\<lambda>e. to_node e = sid) es"
  by (induction es) simp_all

lemma find_is_first: "(find P xs = Some x) = is_first P x xs"
  unfolding is_first_def find_Some_iff by blast

lemma first_suggested_None:
  "(first_suggested ids es = None) = (\<forall>sid \<in> set ids. \<forall>e \<in> set es. to_node e \<noteq> sid)"
proof (induction ids)
  case Nil
  then show ?case by simp
next
  case (Cons sid sids)
  have "(first_to_node sid es = None) = (\<forall>e \<in> set es. to_node e \<noteq> sid)"
    by (simp add: first_to_node_find find_None_iff) blast
  with Cons.IH show ?case
    by (cases "first_to_node sid es") auto
qed

lemma first_suggested_Some:
  "first_suggested ids es = Some e \<Longrightarrow> first_hit ids e es"
proof (induction ids)
  case Nil
  then show ?case by simp
next
  case (Cons sid sids)
  show ?case
  proof (cases "first_to_node sid es")
    case (Some e')
    with Cons.prems have "e' = e" by simp
    with Some have "is_first (\<lambda>e'. to_node e' = sid) e es"
      by (simp add: first_to_node_find find_is_first)
    then show ?thesis
      unfolding first_hit_def by (intro exI [of _ 0]) simp
  next
    case None
    then have no: "\<forall>e' \<in> set es. to_node e' \<noteq> sid"
      by (auto simp: first_to_node_find find_None_iff)
    from None Cons.prems have "first_suggested sids es = Some e" by simp
    then have "first_hit sids e es" by (rule Cons.IH)
    then obtain k where k: "k < length sids"
        "\<forall>m < k. \<forall>e' \<in> set es. to_node e' \<noteq> sids ! m"
        "is_first (\<lambda>e'. to_node e' = sids ! k) e es"
      unfolding first_hit_def by blast
    have "\<forall>m < Suc k. \<forall>e' \<in> set es. to_node e' \<noteq> (sid # sids) ! m"
    proof (intro allI impI)
      fix m assume "m < Suc k"
      then show "\<forall>e' \<in> set es. to_node e' \<noteq> (sid # sids) ! m"
        using no k(2) by (cases m) simp_all
    qed
    with k(1,3) show ?thesis
      unfolding first_hit_def by (intro exI [of _ "Suc k"]) simp
  qed
qed


lemma hd_sort_key_le:
  fixes f :: "'a \<Rightarrow> 'b::linorder"
  assumes "xs \<noteq> []" "x \<in> set xs"
  shows "f (hd (sort_key f xs)) \<le> f x"
proof -
  have "sort_key f xs \<noteq> []"
    using assms(1) by (metis set_sort set_empty)
  then obtain y ys where ys: "sort_key f xs = y # ys"
    by (cases "sort_key f xs") auto
  have "sorted (map f (y # ys))"
    using sorted_sort_key [of f xs] ys by simp
  moreover have "x \<in> set (y # ys)"
    using assms(2) ys set_sort [of f xs] by simp
  ultimately show ?thesis
    using ys by auto
qed

lemma hd_sort_key_mem: "xs \<noteq> [] \<Longrightarrow> hd (sort_key f xs) \<in> set xs"
  by (metis set_sort list.set_sel(1) set_empty)

lemma edge_key_le:
  "(edge_key a \<le> edge_key b) =
     (weight b < weight a \<or> (weight b = weight a \<and> to_node a \<le> to_node b))"
proof -
  have "(edge_key a \<le> edge_key b) =
      (- weight a < - weight b \<or> (- weight a \<le> - weight b \<and> to_node a \<le> to_node b))"
    by (simp only: edge_key_def less_eq_prod_def fst_conv snd_conv)
  also have "\<dots> = (weight b < weight a \<or> (weight b = weight a \<and> to_node a \<le> to_node b))"
    by (simp only: neg_less_iff_less neg_le_iff_le) (metis less_le not_le)
  finally show ?thesis .
qed

lemma best_in_sorted_hd:
  assumes "grp \<noteq> []"
  shows "best_in (hd (sort_key edge_key grp)) grp"
  unfolding best_in_def
proof (intro conjI ballI)
  show "hd (sort_key edge_key grp) \<in> set grp"
    using assms by (rule hd_sort_key_mem)
next
  fix e' assume "e' \<in> set grp"
  then have "edge_key (hd (sort_key edge_key grp)) \<le> edge_key e'"
    by (rule hd_sort_key_le [OF assms])
  then show "weight e' < weight (hd (sort_key edge_key grp)) \<or>
      (weight e' = weight (hd (sort_key edge_key grp)) \<and>
       to_node (hd (sort_key edge_key grp)) \<le> to_node e')"
    by (simp only: edge_key_le)
qed


lemma select_edge_unfold:
  assumes "es = outgoing_edges g (n_id n)"
    and "cm = filter (\<lambda>e. condition e \<noteq> [] \<and> evaluate_condition (condition e) oc ctx) es"
    and "un = filter (\<lambda>e. condition e = []) es"
    and "pl = normalize_label (preferred_label oc)"
  shows "select_edge n oc ctx g =
      (if es = [] then None
       else if cm \<noteq> [] then Some (hd (sort_key edge_key cm))
       else case (if preferred_label oc \<noteq> [] then first_label_match pl es else None) of
              Some e \<Rightarrow> Some e
            | None \<Rightarrow>
               (case (if suggested_next_ids oc \<noteq> []
                      then first_suggested (suggested_next_ids oc) es else None) of
                  Some e \<Rightarrow> Some e
                | None \<Rightarrow> if un \<noteq> [] then Some (hd (sort_key edge_key un))
                           else Some (hd (sort_key edge_key es))))"
proof -
  have cm: "condition_matched es oc ctx = cm"
    by (simp add: condition_matched_def assms(2))
  show ?thesis
    unfolding select_edge_def Let_def assms(1) [symmetric] cm assms(3) [symmetric]
      assms(4) [symmetric] ..
qed

lemmas graph_eval = Edge_def Node_def Graph_def outgoing_edges_def Outcome_def
  condition_matched_def evaluate_condition_def evaluate_clause_def resolve_key_def
  normalize_label_def strip_bracket_def strip_paren_def strip_dash_def

section \<open>Facts about the engine loop\<close>

lemma steps_run_loop:
  "steps H g k st = Some st' \<Longrightarrow> run_loop H g st = run_loop H g st'"
proof (induction k arbitrary: st)
  case 0
  then show ?case by simp
next
  case (Suc k)
  then obtain st1 where st1: "engine_step H g st = Continue st1" "steps H g k st1 = Some st'"
    by (auto split: step_result.splits)
  have "run_loop H g st = run_loop H g st1"
    by (subst run_loop.simps) (simp add: st1(1))
  also have "\<dots> = run_loop H g st'"
    using st1(2) by (rule Suc.IH)
  finally show ?case .
qed

lemma run_loop_stop: "engine_step H g st = Stop r \<Longrightarrow> run_loop H g st = Some r"
  by (subst run_loop.simps) simp

lemma goal_gate_scan_None:
  "(goal_gate_scan g nos = None) = (\<forall>p \<in> set nos. \<not> unsatisfied g p)"
  by (induction g nos rule: goal_gate_scan.induct)
     (auto simp: unsatisfied_def split: option.splits)

lemma goal_gate_scan_Some:
  "goal_gate_scan g nos = Some (nid, oc) \<Longrightarrow> (nid, oc) \<in> set nos \<and> unsatisfied g (nid, oc)"
  by (induction g nos rule: goal_gate_scan.induct)
     (auto simp: unsatisfied_def split: option.splits if_splits)

lemma is_terminal_node: "is_terminal g i \<Longrightarrow> \<exists>n. get_node g i = Some n"
  by (auto simp: is_terminal_def split: option.splits)

lemma engine_step_terminal:
  assumes "is_terminal g (current_id st)"
  shows "engine_step H g st =
     (case goal_gate_scan g (node_outcomes st) of
        Some (nid, oc) \<Rightarrow>
          Stop (Returned (gate_failure nid oc)
            (st\<lparr>emitted := emitted st @
                   [PipelineFailed nid (failure_reason (gate_failure nid oc))]\<rparr>))
      | None \<Rightarrow> finish st)"
  using is_terminal_node [OF assms] assms by (auto simp: engine_step_def)


lemmas engine_eval = engine_step_def get_node_def is_terminal_def record_outcome_def route_def
  select_edge_def finish_def initial_state_def seed_context_def display_name_def
  find_start_node_def goal_gate_def gate_failure_def unsatisfied_def edge_key_def


section \<open>Condition evaluation: claims C4 and C6\<close>

text \<open>
  C4. The claim: a key \<open>context.<name>\<close> resolves to the context value stored at
  \<open><name>\<close>, else to the value stored at the literal key, else to the empty string.
  \<open>resolve_key\<close> cuts nine characters off the key, although the prefix \<open>context.\<close> has
  eight, so it looks the name up without its first character: with \<open>bar\<close> stored at
  \<open>foo\<close> the key \<open>context.foo\<close> resolves to the empty string, and with \<open>bar\<close> stored
  at \<open>oo\<close> it resolves to \<open>bar\<close>.
\<close>

theorem resolve_key_context_prefix_skips_a_character:
  "resolve_key ''context.foo'' (Outcome SUCCESS) [''foo'' \<mapsto> PyStr ''bar''] = [] \<and>
   resolve_key ''context.foo'' (Outcome SUCCESS) [''oo'' \<mapsto> PyStr ''bar''] = ''bar''"
  by (simp add: resolve_key_def str_eval Let_def)

text \<open>
  C6. The claim: evaluation never raises, a blank condition is true, and a key that
  neither the outcome nor the context resolves gives the empty string, so that a bare-key
  clause is false. The context below stores nothing at \<open>foo\<close> and nothing at
  \<open>context.foo\<close>, yet the bare-key condition \<open>context.foo\<close> evaluates to true, because
  the lookup of C4 reads the key \<open>oo\<close>.
\<close>

theorem evaluate_condition_unknown_context_key:
  "[''oo'' \<mapsto> PyStr ''x''] ''foo'' = None \<and>
   [''oo'' \<mapsto> PyStr ''x''] ''context.foo'' = None \<and>
   evaluate_condition ''context.foo'' (Outcome SUCCESS) [''oo'' \<mapsto> PyStr ''x'']"
  by (simp add: evaluate_condition_def evaluate_clause_def resolve_key_def str_eval Let_def)

text \<open>
  The rest of C6 holds on the code. The three functions have no raising path. A
  condition that is empty or white space evaluates to true. A key that is neither
  \<open>outcome\<close> nor \<open>preferred_label\<close>, does not start with \<open>context.\<close> and is missing
  from the context resolves to the empty string, and a clause without \<open>=\<close> whose key
  resolves to the empty string is false.
\<close>

lemma evaluate_condition_blank: "py_strip cond = [] \<Longrightarrow> evaluate_condition cond oc ctx"
  by (simp add: evaluate_condition_def)

lemma resolve_key_missing:
  assumes "py_strip k \<noteq> ''outcome''" and "py_strip k \<noteq> ''preferred_label''"
    and "\<not> startswith ''context.'' (py_strip k)" and "ctx (py_strip k) = None"
  shows "resolve_key k oc ctx = []"
  using assms by (simp add: resolve_key_def Let_def)

lemma bare_clause_missing:
  assumes "split_first ''!='' (py_strip c) = None" and "split_first ''='' (py_strip c) = None"
    and "resolve_key c oc ctx = []"
  shows "\<not> evaluate_clause c oc ctx"
proof -
  have "resolve_key (py_strip c) oc ctx = resolve_key c oc ctx"
    by (simp add: resolve_key_def py_strip_idem)
  then show ?thesis
    using assms by (simp add: evaluate_clause_def Let_def)
qed

section \<open>Label normalization: claim C7\<close>

text \<open>
  C7, as stated, against the code. The specification strips one accelerator prefix of
  one character, with a space after the delimiter. \<open>_normalize_label\<close> differs on each
  point: the bracket may hold two characters or none (\<open>[OK] Go\<close> and \<open>[] Go\<close> give
  \<open>go\<close>), no space is needed after the delimiter (\<open>[y]yes\<close>, \<open>a)b\<close> and \<open>x -ray\<close>
  give \<open>yes\<close>, \<open>b\<close> and \<open>ray\<close>), and a second strip follows the first
  (\<open>[a] b) c\<close> gives \<open>c\<close>). The specification's rule leaves the first five labels as
  they are, lowercased, and takes the last to \<open>b) c\<close>.
\<close>

theorem normalize_label_differs_from_spec:
  "normalize_label ''[OK] Go'' = ''go'' \<and> normalize_label_spec ''[OK] Go'' = ''[ok] go'' \<and>
   normalize_label ''[] Go'' = ''go'' \<and> normalize_label_spec ''[] Go'' = ''[] go'' \<and>
   normalize_label ''[y]yes'' = ''yes'' \<and> normalize_label_spec ''[y]yes'' = ''[y]yes'' \<and>
   normalize_label ''a)b'' = ''b'' \<and> normalize_label_spec ''a)b'' = ''a)b'' \<and>
   normalize_label ''x -ray'' = ''ray'' \<and> normalize_label_spec ''x -ray'' = ''x -ray'' \<and>
   normalize_label ''[a] b) c'' = ''c'' \<and> normalize_label_spec ''[a] b) c'' = ''b) c''"
  by (simp add: normalize_label_def strip_bracket_def strip_paren_def strip_dash_def
        normalize_label_spec_def accelerator_length_def str_eval Let_def)

text \<open>
  C7, amended. Label normalization is exactly the amended rule: trim and lowercase, then
  the bracket strip (a closing bracket among the first four characters), then the
  parenthesis strip (second character), then the dash strip (second and third
  characters), each followed by a trim, with no further trim needed at the end. So a
  label to which no strip applies is only trimmed and lowercased, and a bracket holding
  three characters is kept. In particular \<open>[Y] Yes\<close>, \<open>Y) Yes\<close> and \<open>Y - Yes\<close> normalize
  to \<open>yes\<close>.
\<close>

theorem normalize_label_exact:
  "normalize_label lbl = normalize_label_amended lbl \<and>
   normalize_label ''[Y] Yes'' = ''yes'' \<and>
   normalize_label ''Y) Yes'' = ''yes'' \<and>
   normalize_label ''Y - Yes'' = ''yes''"
proof (intro conjI)
  let ?s0 = "py_lower (py_strip lbl)"
  have t0: "py_strip ?s0 = ?s0"
    by (simp add: py_strip_lower py_strip_idem)
  have t1: "py_strip (strip_bracket ?s0) = strip_bracket ?s0"
    using t0 by (rule strip_steps_trimmed(1))
  have t2: "py_strip (strip_paren (strip_bracket ?s0)) = strip_paren (strip_bracket ?s0)"
    using t1 by (rule strip_steps_trimmed(2))
  have t3: "py_strip (strip_dash (strip_paren (strip_bracket ?s0))) =
            strip_dash (strip_paren (strip_bracket ?s0))"
    using t2 by (rule strip_steps_trimmed(3))
  have "normalize_label lbl = strip_dash (strip_paren (strip_bracket ?s0))"
    unfolding normalize_label_def by (rule t3)
  also have "\<dots> = normalize_label_amended lbl"
    unfolding normalize_label_amended_def Let_def
    by (simp only: strip_bracket_amended [symmetric] strip_paren_amended [symmetric]
          strip_dash_amended [symmetric])
  finally show "normalize_label lbl = normalize_label_amended lbl" .
next
  show "normalize_label ''[Y] Yes'' = ''yes''"
    by (simp add: normalize_label_def strip_bracket_def strip_paren_def strip_dash_def str_eval)
next
  show "normalize_label ''Y) Yes'' = ''yes''"
    by (simp add: normalize_label_def strip_bracket_def strip_paren_def strip_dash_def str_eval)
next
  show "normalize_label ''Y - Yes'' = ''yes''"
    by (simp add: normalize_label_def strip_bracket_def strip_paren_def strip_dash_def str_eval)
qed

text \<open>
  Four labels through the amended rule: a plain label is trimmed and lowercased; a
  bracket with three characters is kept; a bracket strip is followed by a parenthesis
  strip; a parenthesis strip is not followed by a bracket strip.
\<close>

theorem normalize_label_exact_witness:
  "normalize_label '' Yes '' = ''yes'' \<and>
   normalize_label ''[abc] x'' = ''[abc] x'' \<and>
   normalize_label ''[a] b) c'' = ''c'' \<and>
   normalize_label ''b) [a] c'' = ''[a] c''"
  using normalize_label_exact [of "'' Yes ''"] normalize_label_exact [of "''[abc] x''"]
        normalize_label_exact [of "''[a] b) c''"] normalize_label_exact [of "''b) [a] c''"]
  by (simp add: normalize_label_amended_def first_close_def str_eval Let_def)

section \<open>Edge selection: claims C1 and C10\<close>

text \<open>
  C1. \<open>select_edge\<close> follows the five groups in order. With no outgoing edge the result is
  \<open>None\<close>. Otherwise, if some edge has a non-empty guard that evaluates true, the result
  is a best edge of those (weight descending, then destination ascending); else, if the
  preferred label is non-empty and some edge's normalized label equals the normalized
  preferred label, the first such edge; else, if some suggested id is the destination of
  an edge, the first edge going to the first such id; else, if some edge has an empty
  guard, a best edge of those; else a best edge of all. \<open>select_edge\<close> is a function of
  the node, the Outcome, the Context and the Graph alone, so the same inputs give the same
  edge.
\<close>

theorem select_edge_priority:
  assumes "es = outgoing_edges g (n_id n)"
    and "cm = filter (\<lambda>e. condition e \<noteq> [] \<and> evaluate_condition (condition e) oc ctx) es"
    and "un = filter (\<lambda>e. condition e = []) es"
    and "pl = normalize_label (preferred_label oc)"
  shows
    "if es = [] then select_edge n oc ctx g = None
     else if cm \<noteq> [] then \<exists>e. select_edge n oc ctx g = Some e \<and> best_in e cm
     else if preferred_label oc \<noteq> [] \<and> (\<exists>e \<in> set es. normalize_label (label e) = pl)
       then \<exists>e. select_edge n oc ctx g = Some e \<and>
                is_first (\<lambda>e. normalize_label (label e) = pl) e es
     else if (\<exists>sid \<in> set (suggested_next_ids oc). \<exists>e \<in> set es. to_node e = sid)
       then \<exists>e. select_edge n oc ctx g = Some e \<and> first_hit (suggested_next_ids oc) e es
     else if un \<noteq> [] then \<exists>e. select_edge n oc ctx g = Some e \<and> best_in e un
     else \<exists>e. select_edge n oc ctx g = Some e \<and> best_in e es"
proof -
  let ?lbl = "if preferred_label oc \<noteq> [] then first_label_match pl es else None"
  let ?sug = "if suggested_next_ids oc \<noteq> []
              then first_suggested (suggested_next_ids oc) es else None"
  have sel: "select_edge n oc ctx g =
      (if es = [] then None
       else if cm \<noteq> [] then Some (hd (sort_key edge_key cm))
       else case ?lbl of Some e \<Rightarrow> Some e
            | None \<Rightarrow> (case ?sug of Some e \<Rightarrow> Some e
                | None \<Rightarrow> if un \<noteq> [] then Some (hd (sort_key edge_key un))
                           else Some (hd (sort_key edge_key es))))"
    by (rule select_edge_unfold [OF assms])
  have lbl_some: "?lbl = Some e \<Longrightarrow> is_first (\<lambda>e. normalize_label (label e) = pl) e es" for e
    by (simp add: first_label_match_find find_is_first split: if_splits)
  have lbl_none: "(?lbl = None) =
      (\<not> (preferred_label oc \<noteq> [] \<and> (\<exists>e \<in> set es. normalize_label (label e) = pl)))"
    by (auto simp: first_label_match_find find_None_iff)
  have sug_some: "?sug = Some e \<Longrightarrow> first_hit (suggested_next_ids oc) e es" for e
    by (auto dest: first_suggested_Some split: if_splits)
  have sug_none: "(?sug = None) =
      (\<not> (\<exists>sid \<in> set (suggested_next_ids oc). \<exists>e \<in> set es. to_node e = sid))"
    by (auto simp: first_suggested_None)
  show ?thesis
  proof (cases "es = []")
    case True
    have r: "select_edge n oc ctx g = None"
      using sel True by simp
    show ?thesis
      by (subst if_P [OF True]) (rule r)
  next
    case es: False
    show ?thesis
    proof (cases "cm = []")
      case False
      have r: "\<exists>e. select_edge n oc ctx g = Some e \<and> best_in e cm"
        using es False sel best_in_sorted_hd [of cm] by simp
      show ?thesis
        by (subst if_not_P [OF es], subst if_P [OF False]) (rule r)
    next
      case cm0: True
      then have ncm: "\<not> cm \<noteq> []" by simp
      show ?thesis
      proof (cases ?lbl)
        case (Some e)
        have "select_edge n oc ctx g = Some e"
          using sel es cm0 Some by simp
        then have r: "\<exists>e. select_edge n oc ctx g = Some e \<and>
                      is_first (\<lambda>e. normalize_label (label e) = pl) e es"
          using lbl_some [OF Some] by blast
        have lp: "preferred_label oc \<noteq> [] \<and>
                          (\<exists>e \<in> set es. normalize_label (label e) = pl)"
          using Some lbl_none by (metis option.distinct(1))
        show ?thesis
          by (subst if_not_P [OF es], subst if_not_P [OF ncm], subst if_P [OF lp]) (rule r)
      next
        case lbl0: None
        have l: "\<not> (preferred_label oc \<noteq> [] \<and> (\<exists>e \<in> set es. normalize_label (label e) = pl))"
          using lbl0 lbl_none by blast
        show ?thesis
        proof (cases ?sug)
          case (Some e)
          have "select_edge n oc ctx g = Some e"
            using sel es cm0 lbl0 Some by simp
          then have r: "\<exists>e. select_edge n oc ctx g = Some e \<and>
                        first_hit (suggested_next_ids oc) e es"
            using sug_some [OF Some] by blast
          have sp: "\<exists>sid \<in> set (suggested_next_ids oc). \<exists>e \<in> set es. to_node e = sid"
            using Some sug_none by (metis option.distinct(1))
          show ?thesis
            by (subst if_not_P [OF es], subst if_not_P [OF ncm], subst if_not_P [OF l],
                subst if_P [OF sp]) (rule r)
        next
          case sug0: None
          have s: "\<not> (\<exists>sid \<in> set (suggested_next_ids oc). \<exists>e \<in> set es. to_node e = sid)"
            using sug0 sug_none by blast
          have sel': "select_edge n oc ctx g =
              (if un \<noteq> [] then Some (hd (sort_key edge_key un))
               else Some (hd (sort_key edge_key es)))"
            using sel es cm0 lbl0 sug0 by simp
          show ?thesis
          proof (cases "un = []")
            case True
            then have nun: "\<not> un \<noteq> []" by simp
            have r: "\<exists>e. select_edge n oc ctx g = Some e \<and> best_in e es"
              using sel' True best_in_sorted_hd [OF es] by simp
            show ?thesis
              by (subst if_not_P [OF es], subst if_not_P [OF ncm], subst if_not_P [OF l],
                  subst if_not_P [OF s], subst if_not_P [OF nun]) (rule r)
          next
            case False
            have r: "\<exists>e. select_edge n oc ctx g = Some e \<and> best_in e un"
              using sel' False best_in_sorted_hd [OF False] by simp
            show ?thesis
              by (subst if_not_P [OF es], subst if_not_P [OF ncm], subst if_not_P [OF l],
                  subst if_not_P [OF s], subst if_P [OF False]) (rule r)
          qed
        qed
      qed
    qed
  qed
qed

text \<open>
  Three runs of C1: no outgoing edge; a guarded edge that matches, beside an unguarded
  one; two unguarded edges of equal weight, where the destination \<open>a\<close> wins over \<open>b\<close>.
\<close>

theorem select_edge_priority_witness:
  "select_edge (Node ''decide'' ''box'' Map.empty) (Outcome SUCCESS) Map.empty (Graph [] []) = None \<and>
   select_edge (Node ''decide'' ''box'' Map.empty) (Outcome SUCCESS) Map.empty
     (Graph [] [Edge ''decide'' ''ok'' [] ''outcome=success'' 0,
                Edge ''decide'' ''bad'' [] [] 0])
   = Some (Edge ''decide'' ''ok'' [] ''outcome=success'' 0) \<and>
   select_edge (Node ''n'' ''box'' Map.empty) (Outcome SUCCESS) Map.empty
     (Graph [] [Edge ''n'' ''b'' [] [] 1, Edge ''n'' ''a'' [] [] 1])
   = Some (Edge ''n'' ''a'' [] [] 1)"
proof (intro conjI)
  show "select_edge (Node ''decide'' ''box'' Map.empty) (Outcome SUCCESS) Map.empty
          (Graph [] []) = None"
    using select_edge_priority [OF refl refl refl refl,
            of "Graph [] []" "Node ''decide'' ''box'' Map.empty" "Outcome SUCCESS" Map.empty]
    by (simp add: graph_eval)
next
  show "select_edge (Node ''decide'' ''box'' Map.empty) (Outcome SUCCESS) Map.empty
          (Graph [] [Edge ''decide'' ''ok'' [] ''outcome=success'' 0,
                     Edge ''decide'' ''bad'' [] [] 0])
        = Some (Edge ''decide'' ''ok'' [] ''outcome=success'' 0)"
    using select_edge_priority [OF refl refl refl refl,
            of "Graph [] [Edge ''decide'' ''ok'' [] ''outcome=success'' 0,
                          Edge ''decide'' ''bad'' [] [] 0]"
               "Node ''decide'' ''box'' Map.empty" "Outcome SUCCESS" Map.empty]
    by (simp add: graph_eval str_eval best_in_def Let_def)
next
  show "select_edge (Node ''n'' ''box'' Map.empty) (Outcome SUCCESS) Map.empty
          (Graph [] [Edge ''n'' ''b'' [] [] 1, Edge ''n'' ''a'' [] [] 1])
        = Some (Edge ''n'' ''a'' [] [] 1)"
    using select_edge_priority [OF refl refl refl refl,
            of "Graph [] [Edge ''n'' ''b'' [] [] 1, Edge ''n'' ''a'' [] [] 1]"
               "Node ''n'' ''box'' Map.empty" "Outcome SUCCESS" Map.empty]
    by (auto simp: graph_eval best_in_def)
qed

text \<open>
  C10. When no non-empty guard evaluates true, the preferred label is non-empty and some
  outgoing edge's normalized label equals the normalized preferred label, \<open>select_edge\<close>
  returns the first such edge in the order of declaration, whatever the weights and the
  guards of the edges.
\<close>

theorem preferred_label_first_match:
  assumes "es = outgoing_edges g (n_id n)"
    and "filter (\<lambda>e. condition e \<noteq> [] \<and> evaluate_condition (condition e) oc ctx) es = []"
    and "preferred_label oc \<noteq> []"
    and "\<exists>e \<in> set es. normalize_label (label e) = normalize_label (preferred_label oc)"
  shows "\<exists>e. select_edge n oc ctx g = Some e \<and>
             is_first (\<lambda>e. normalize_label (label e) = normalize_label (preferred_label oc)) e es"
proof -
  let ?pl = "normalize_label (preferred_label oc)"
  have "es \<noteq> []" using assms(4) by auto
  moreover have "first_label_match ?pl es \<noteq> None"
    using assms(4) by (auto simp: first_label_match_find find_None_iff)
  then obtain e where e: "first_label_match ?pl es = Some e" by blast
  ultimately have "select_edge n oc ctx g = Some e"
    using select_edge_unfold [OF assms(1) assms(2) [symmetric] refl refl] assms(3) by simp
  moreover have "is_first (\<lambda>e. normalize_label (label e) = ?pl) e es"
    using e by (simp add: first_label_match_find find_is_first)
  ultimately show ?thesis by blast
qed

text \<open>
  An instance of C10: the first edge carries a guard that is false and weight 0, the
  second no guard and weight 5; both labels normalize to the preferred label \<open>yes\<close>, and
  the first edge is selected.
\<close>

theorem preferred_label_first_match_witness:
  "select_edge (Node ''decide'' ''box'' Map.empty)
     ((Outcome SUCCESS)\<lparr>preferred_label := ''yes''\<rparr>) Map.empty
     (Graph [] [Edge ''decide'' ''a'' ''Yes'' ''outcome=fail'' 0,
                Edge ''decide'' ''b'' ''[Y] Yes'' [] 5])
   = Some (Edge ''decide'' ''a'' ''Yes'' ''outcome=fail'' 0)"
proof -
  let ?n = "Node ''decide'' ''box'' Map.empty"
  let ?oc = "(Outcome SUCCESS)\<lparr>preferred_label := ''yes''\<rparr>"
  let ?a = "Edge ''decide'' ''a'' ''Yes'' ''outcome=fail'' 0"
  let ?b = "Edge ''decide'' ''b'' ''[Y] Yes'' [] 5"
  let ?g = "Graph [] [?a, ?b]"
  have es: "[?a, ?b] = outgoing_edges ?g (n_id ?n)"
    by (simp add: graph_eval)
  have cm: "filter (\<lambda>e. condition e \<noteq> [] \<and> evaluate_condition (condition e) ?oc Map.empty)
              [?a, ?b] = []"
    by (simp add: graph_eval str_eval Let_def)
  have pl: "preferred_label ?oc \<noteq> []"
    by (simp add: Outcome_def)
  have na: "normalize_label (label ?a) = normalize_label (preferred_label ?oc)"
    by (simp add: graph_eval str_eval)
  then have ex: "\<exists>e \<in> set [?a, ?b]. normalize_label (label e) = normalize_label (preferred_label ?oc)"
    by simp
  obtain e where e: "select_edge ?n ?oc Map.empty ?g = Some e"
      "is_first (\<lambda>e. normalize_label (label e) = normalize_label (preferred_label ?oc)) e [?a, ?b]"
    using preferred_label_first_match [OF es cm pl ex] by blast
  from e(2) na have "e = ?a"
    unfolding is_first_def by (auto simp: less_Suc_eq)
  with e(1) show ?thesis by simp
qed

section \<open>Engine: claims C2 and C5\<close>

text \<open>
  C2. Take a run that starts at the start node and, after some passes of the loop, is at
  a terminal node, in state \<open>st\<close>. If some node recorded in \<open>st\<close> is goal-gated and its
  recorded Outcome is neither SUCCESS nor PARTIAL_SUCCESS, the run returns an Outcome
  with status FAIL and the failure reason
  \<open>Goal gate unsatisfied at node '<id>': <reason-or-status>\<close> for such a node, and its
  last event is PipelineFailed, not PipelineCompleted. Otherwise the run returns the last
  stage's Outcome (a SUCCESS Outcome if no stage ran) and its last event is
  PipelineCompleted.
\<close>

theorem goal_gate_at_terminal:
  assumes "find_start_node g = Some s" and "s \<noteq> []"
    and "steps H g k (initial_state s (seed_context g c)) = Some st"
    and "is_terminal g (current_id st)"
  shows
    "if \<exists>p \<in> set (node_outcomes st). unsatisfied g p
     then \<exists>nid oc fail.
            (nid, oc) \<in> set (node_outcomes st) \<and> unsatisfied g (nid, oc) \<and>
            status fail = FAIL \<and>
            failure_reason fail =
              ''Goal gate unsatisfied at node '' @ [CHR 0x27] @ nid @ [CHR 0x27] @ '': '' @
              (if failure_reason oc \<noteq> [] then failure_reason oc else status_value (status oc)) \<and>
            run H g c =
              Some (Returned fail
                (st\<lparr>emitted := emitted st @ [PipelineFailed nid (failure_reason fail)]\<rparr>))
     else run H g c =
            Some (Returned
              (case last_outcome st of
                 Some oc \<Rightarrow> oc
               | None \<Rightarrow> (Outcome SUCCESS)\<lparr>o_notes := ''Pipeline completed''\<rparr>)
              (st\<lparr>emitted := emitted st @ [PipelineCompleted (current_id st)]\<rparr>))"
proof -
  have run: "run H g c = run_loop H g st"
    using assms(1,2) steps_run_loop [OF assms(3)] by (simp add: run_def)
  show ?thesis
  proof (cases "goal_gate_scan g (node_outcomes st)")
    case None
    then have no: "\<not> (\<exists>p \<in> set (node_outcomes st). unsatisfied g p)"
      using goal_gate_scan_None [of g "node_outcomes st"] by blast
    have "engine_step H g st = finish st"
      using engine_step_terminal [OF assms(4), of H] None by simp
    then have r: "run H g c =
            Some (Returned
              (case last_outcome st of
                 Some oc \<Rightarrow> oc
               | None \<Rightarrow> (Outcome SUCCESS)\<lparr>o_notes := ''Pipeline completed''\<rparr>)
              (st\<lparr>emitted := emitted st @ [PipelineCompleted (current_id st)]\<rparr>))"
      unfolding run finish_def by (rule run_loop_stop)
    show ?thesis
      by (subst if_not_P [OF no]) (rule r)
  next
    case (Some p)
    obtain nid oc where p: "p = (nid, oc)" by (cases p)
    have mem: "(nid, oc) \<in> set (node_outcomes st)" "unsatisfied g (nid, oc)"
      using goal_gate_scan_Some [of g "node_outcomes st" nid oc] Some p by simp_all
    then have yes: "\<exists>p \<in> set (node_outcomes st). unsatisfied g p" by blast
    have "engine_step H g st = Stop (Returned (gate_failure nid oc)
            (st\<lparr>emitted := emitted st @
                   [PipelineFailed nid (failure_reason (gate_failure nid oc))]\<rparr>))"
      using engine_step_terminal [OF assms(4), of H] Some p by simp
    then have "run H g c = Some (Returned (gate_failure nid oc)
            (st\<lparr>emitted := emitted st @
                   [PipelineFailed nid (failure_reason (gate_failure nid oc))]\<rparr>))"
      unfolding run by (rule run_loop_stop)
    moreover have "status (gate_failure nid oc) = FAIL"
      by (simp add: gate_failure_def Outcome_def)
    moreover have "failure_reason (gate_failure nid oc) =
              ''Goal gate unsatisfied at node '' @ [CHR 0x27] @ nid @ [CHR 0x27] @ '': '' @
              (if failure_reason oc \<noteq> [] then failure_reason oc else status_value (status oc))"
      by (simp add: gate_failure_def)
    ultimately have r: "\<exists>nid oc fail.
            (nid, oc) \<in> set (node_outcomes st) \<and> unsatisfied g (nid, oc) \<and>
            status fail = FAIL \<and>
            failure_reason fail =
              ''Goal gate unsatisfied at node '' @ [CHR 0x27] @ nid @ [CHR 0x27] @ '': '' @
              (if failure_reason oc \<noteq> [] then failure_reason oc else status_value (status oc)) \<and>
            run H g c =
              Some (Returned fail
                (st\<lparr>emitted := emitted st @ [PipelineFailed nid (failure_reason fail)]\<rparr>))"
      using mem by blast
    show ?thesis
      by (subst if_P [OF yes]) (rule r)
  qed
qed

text \<open>
  A run of C2: the gated node \<open>critical\<close> fails with reason \<open>boom\<close> and its fail edge
  leads to the terminal node; the run returns FAIL with the goal gate reason and ends with
  PipelineFailed.
\<close>

theorem goal_gate_at_terminal_witness:
  "\<exists>st fail.
     steps (\<lambda>i n c. if n_id n = ''critical''
                     then Inr ((Outcome FAIL)\<lparr>failure_reason := ''boom''\<rparr>, c)
                     else Inr (Outcome SUCCESS, c))
       (Graph [(''start'', Node ''start'' ''Mdiamond'' Map.empty),
               (''critical'', Node ''critical'' ''box'' [''goal_gate'' \<mapsto> PyBool True]),
               (''end'', Node ''end'' ''Msquare'' Map.empty)]
              [Edge ''start'' ''critical'' [] [] 0,
               Edge ''critical'' ''end'' [] ''outcome=fail'' 0])
       2 (initial_state ''start''
            (seed_context
               (Graph [(''start'', Node ''start'' ''Mdiamond'' Map.empty),
                       (''critical'', Node ''critical'' ''box'' [''goal_gate'' \<mapsto> PyBool True]),
                       (''end'', Node ''end'' ''Msquare'' Map.empty)]
                      [Edge ''start'' ''critical'' [] [] 0,
                       Edge ''critical'' ''end'' [] ''outcome=fail'' 0])
               Map.empty)) = Some st \<and>
     current_id st = ''end'' \<and>
     run (\<lambda>i n c. if n_id n = ''critical''
                   then Inr ((Outcome FAIL)\<lparr>failure_reason := ''boom''\<rparr>, c)
                   else Inr (Outcome SUCCESS, c))
       (Graph [(''start'', Node ''start'' ''Mdiamond'' Map.empty),
               (''critical'', Node ''critical'' ''box'' [''goal_gate'' \<mapsto> PyBool True]),
               (''end'', Node ''end'' ''Msquare'' Map.empty)]
              [Edge ''start'' ''critical'' [] [] 0,
               Edge ''critical'' ''end'' [] ''outcome=fail'' 0])
       Map.empty
     = Some (Returned fail
         (st\<lparr>emitted := emitted st @ [PipelineFailed ''critical'' (failure_reason fail)]\<rparr>)) \<and>
     status fail = FAIL \<and>
     failure_reason fail =
       ''Goal gate unsatisfied at node '' @ [CHR 0x27] @ ''critical'' @ [CHR 0x27] @ '': boom''"
proof -
  let ?H = "\<lambda>(i::nat) n (c::Context). if n_id n = ''critical''
                     then Inr ((Outcome FAIL)\<lparr>failure_reason := ''boom''\<rparr>, c)
                     else (Inr (Outcome SUCCESS, c) :: error + outcome \<times> Context)"
  let ?g = "Graph [(''start'', Node ''start'' ''Mdiamond'' Map.empty),
               (''critical'', Node ''critical'' ''box'' [''goal_gate'' \<mapsto> PyBool True]),
               (''end'', Node ''end'' ''Msquare'' Map.empty)]
              [Edge ''start'' ''critical'' [] [] 0,
               Edge ''critical'' ''end'' [] ''outcome=fail'' 0]"
  have fs: "find_start_node ?g = Some ''start''"
    by (simp add: engine_eval graph_eval)
  have ne: "''start'' \<noteq> []" by simp
  have "\<exists>st. steps ?H ?g 2 (initial_state ''start'' (seed_context ?g Map.empty)) = Some st \<and>
          current_id st = ''end'' \<and>
          node_outcomes st = [(''start'', Outcome SUCCESS),
                              (''critical'', (Outcome FAIL)\<lparr>failure_reason := ''boom''\<rparr>)]"
    by (simp add: numeral_2_eq_2 engine_eval graph_eval str_eval Let_def)
  then obtain st where st:
      "steps ?H ?g 2 (initial_state ''start'' (seed_context ?g Map.empty)) = Some st"
      "current_id st = ''end''"
      "node_outcomes st = [(''start'', Outcome SUCCESS),
                           (''critical'', (Outcome FAIL)\<lparr>failure_reason := ''boom''\<rparr>)]"
    by blast
  have trm: "is_terminal ?g (current_id st)"
    by (simp add: st(2) engine_eval graph_eval)
  have "\<exists>nid oc fail.
            (nid, oc) \<in> set (node_outcomes st) \<and> unsatisfied ?g (nid, oc) \<and>
            status fail = FAIL \<and>
            failure_reason fail =
              ''Goal gate unsatisfied at node '' @ [CHR 0x27] @ nid @ [CHR 0x27] @ '': '' @
              (if failure_reason oc \<noteq> [] then failure_reason oc else status_value (status oc)) \<and>
            run ?H ?g Map.empty =
              Some (Returned fail
                (st\<lparr>emitted := emitted st @ [PipelineFailed nid (failure_reason fail)]\<rparr>))"
    using goal_gate_at_terminal [OF fs ne st(1) trm]
    by (simp add: st(3) engine_eval graph_eval)
  then obtain nid oc fail where r:
      "(nid, oc) \<in> set (node_outcomes st)" "unsatisfied ?g (nid, oc)" "status fail = FAIL"
      "failure_reason fail =
         ''Goal gate unsatisfied at node '' @ [CHR 0x27] @ nid @ [CHR 0x27] @ '': '' @
         (if failure_reason oc \<noteq> [] then failure_reason oc else status_value (status oc))"
      "run ?H ?g Map.empty =
         Some (Returned fail
           (st\<lparr>emitted := emitted st @ [PipelineFailed nid (failure_reason fail)]\<rparr>))"
    by blast
  from r(1,2) have "nid = ''critical'' \<and> oc = (Outcome FAIL)\<lparr>failure_reason := ''boom''\<rparr>"
    by (auto simp: st(3) engine_eval graph_eval)
  with r(3,4,5) st(1,2) show ?thesis
    by (intro exI [of _ st] exI [of _ fail]) (simp add: Outcome_def)
qed

text \<open>
  C5. A stage that is not terminal runs its handler, which returns an Outcome with status
  FAIL; \<open>st'\<close> is the state once the Outcome is recorded and merged into the context. If
  some outgoing edge has a non-empty guard that evaluates true against the Outcome and
  that context, the loop continues at the destination of a best such edge (weight
  descending, then destination ascending). Otherwise the pass raises a RuntimeError
  naming the node and the failure reason, and the run ends with it. Only the guards decide:
  the preferred label and the suggested ids take no part.
\<close>

theorem fail_routing:
  assumes "get_node g (current_id st) = Some n"
    and "\<not> is_terminal g (current_id st)"
    and "H (stage_no st) n (run_ctx st) = Inr (oc, cx)"
    and "status oc = FAIL"
    and "st' = record_outcome
                 (st\<lparr>emitted := emitted st @ [StageStarted (n_id n) (display_name n)]\<rparr>) n oc cx"
    and "fe = filter (\<lambda>e. condition e \<noteq> [] \<and> evaluate_condition (condition e) oc (run_ctx st'))
                (outgoing_edges g (n_id n))"
  shows
    "if fe \<noteq> []
     then \<exists>e. best_in e fe \<and> engine_step H g st = Continue (st'\<lparr>current_id := to_node e\<rparr>)
     else engine_step H g st =
            Stop (Raised (RuntimeError (''Stage '' @ [CHR 0x27] @ n_id n @ [CHR 0x27] @
                                        '' failed: '' @ failure_reason oc)) st') \<and>
          run_loop H g st =
            Some (Raised (RuntimeError (''Stage '' @ [CHR 0x27] @ n_id n @ [CHR 0x27] @
                                        '' failed: '' @ failure_reason oc)) st')"
proof -
  have fe: "condition_matched (outgoing_edges g (n_id n)) oc (run_ctx st') = fe"
    by (simp add: condition_matched_def assms(6))
  have step: "engine_step H g st = route g n oc st'"
    using assms(1,2,3) by (simp add: engine_step_def Let_def assms(5))
  have rt: "route g n oc st' =
      (if fe \<noteq> [] then Continue (st'\<lparr>current_id := to_node (hd (sort_key edge_key fe))\<rparr>)
       else Stop (Raised (RuntimeError (''Stage '' @ [CHR 0x27] @ n_id n @ [CHR 0x27] @
                                        '' failed: '' @ failure_reason oc)) st'))"
    using assms(4) by (simp add: route_def Let_def fe)
  show ?thesis
  proof (cases "fe = []")
    case True
    then have nfe: "\<not> fe \<noteq> []" by simp
    have s: "engine_step H g st =
            Stop (Raised (RuntimeError (''Stage '' @ [CHR 0x27] @ n_id n @ [CHR 0x27] @
                                        '' failed: '' @ failure_reason oc)) st')"
      using step rt True by simp
    have r: "engine_step H g st =
            Stop (Raised (RuntimeError (''Stage '' @ [CHR 0x27] @ n_id n @ [CHR 0x27] @
                                        '' failed: '' @ failure_reason oc)) st') \<and>
          run_loop H g st =
            Some (Raised (RuntimeError (''Stage '' @ [CHR 0x27] @ n_id n @ [CHR 0x27] @
                                        '' failed: '' @ failure_reason oc)) st')"
      using s run_loop_stop [OF s] by blast
    show ?thesis
      by (subst if_not_P [OF nfe]) (rule r)
  next
    case False
    have "engine_step H g st = Continue (st'\<lparr>current_id := to_node (hd (sort_key edge_key fe))\<rparr>)"
      using step rt False by simp
    then have r: "\<exists>e. best_in e fe \<and> engine_step H g st = Continue (st'\<lparr>current_id := to_node e\<rparr>)"
      using best_in_sorted_hd [OF False] by blast
    show ?thesis
      by (subst if_P [OF False]) (rule r)
  qed
qed

text \<open>
  Two passes of C5. In the first the only edge is unguarded, its label equals the
  preferred label and its destination is a suggested id: the pass raises. In the second,
  three guards match: the pass continues at \<open>a\<close>, which has the highest weight and the
  smaller name, and not at the unguarded edge of weight 9.
\<close>

theorem fail_routing_witness:
  "engine_step
     (\<lambda>i n c. Inr ((Outcome FAIL)\<lparr>preferred_label := ''retry'', suggested_next_ids := [''fix''],
                                  failure_reason := ''boom''\<rparr>, c))
     (Graph [(''work'', Node ''work'' ''box'' Map.empty)]
            [Edge ''work'' ''fix'' ''retry'' [] 0])
     (initial_state ''work'' Map.empty)
   = Stop (Raised (RuntimeError (''Stage '' @ [CHR 0x27] @ ''work'' @ [CHR 0x27] @ '' failed: boom''))
       (record_outcome
          ((initial_state ''work'' Map.empty)\<lparr>emitted := [StageStarted ''work'' ''work'']\<rparr>)
          (Node ''work'' ''box'' Map.empty)
          ((Outcome FAIL)\<lparr>preferred_label := ''retry'', suggested_next_ids := [''fix''],
                           failure_reason := ''boom''\<rparr>)
          Map.empty)) \<and>
   (\<exists>s. engine_step
     (\<lambda>i n c. Inr ((Outcome FAIL)\<lparr>failure_reason := ''boom''\<rparr>, c))
     (Graph [(''work'', Node ''work'' ''box'' Map.empty)]
            [Edge ''work'' ''z'' [] ''outcome=fail'' 1,
             Edge ''work'' ''b'' [] ''outcome=fail'' 2,
             Edge ''work'' ''a'' [] ''outcome=fail'' 2,
             Edge ''work'' ''c'' [] [] 9])
     (initial_state ''work'' Map.empty) = Continue s \<and> current_id s = ''a'')"
proof (intro conjI)
  let ?oc = "(Outcome FAIL)\<lparr>preferred_label := ''retry'', suggested_next_ids := [''fix''],
                             failure_reason := ''boom''\<rparr>"
  let ?H = "\<lambda>(i::nat) (n::node) (c::Context). (Inr (?oc, c) :: error + outcome \<times> Context)"
  let ?n = "Node ''work'' ''box'' Map.empty"
  let ?g = "Graph [(''work'', ?n)] [Edge ''work'' ''fix'' ''retry'' [] 0]"
  let ?st = "initial_state ''work'' Map.empty"
  have a1: "get_node ?g (current_id ?st) = Some ?n"
    by (simp add: engine_eval graph_eval)
  have a2: "\<not> is_terminal ?g (current_id ?st)"
    by (simp add: engine_eval graph_eval str_eval)
  have a3: "?H (stage_no ?st) ?n (run_ctx ?st) = Inr (?oc, Map.empty)"
    by (simp add: engine_eval)
  have a4: "status ?oc = FAIL"
    by (simp add: Outcome_def)
  show "engine_step ?H ?g ?st
     = Stop (Raised (RuntimeError (''Stage '' @ [CHR 0x27] @ ''work'' @ [CHR 0x27] @ '' failed: boom''))
       (record_outcome (?st\<lparr>emitted := [StageStarted ''work'' ''work'']\<rparr>) ?n ?oc Map.empty))"
    using fail_routing [where H = "?H" and g = "?g" and st = "?st" and n = "?n" and oc = "?oc"
            and cx = Map.empty, OF a1 a2 a3 a4 refl refl]
    by (simp add: engine_eval graph_eval str_eval)
next
  let ?oc = "(Outcome FAIL)\<lparr>failure_reason := ''boom''\<rparr>"
  let ?H = "\<lambda>(i::nat) (n::node) (c::Context). (Inr (?oc, c) :: error + outcome \<times> Context)"
  let ?n = "Node ''work'' ''box'' Map.empty"
  let ?g = "Graph [(''work'', ?n)]
            [Edge ''work'' ''z'' [] ''outcome=fail'' 1,
             Edge ''work'' ''b'' [] ''outcome=fail'' 2,
             Edge ''work'' ''a'' [] ''outcome=fail'' 2,
             Edge ''work'' ''c'' [] [] 9]"
  let ?st = "initial_state ''work'' Map.empty"
  have a1: "get_node ?g (current_id ?st) = Some ?n"
    by (simp add: engine_eval graph_eval)
  have a2: "\<not> is_terminal ?g (current_id ?st)"
    by (simp add: engine_eval graph_eval str_eval)
  have a3: "?H (stage_no ?st) ?n (run_ctx ?st) = Inr (?oc, Map.empty)"
    by (simp add: engine_eval)
  have a4: "status ?oc = FAIL"
    by (simp add: Outcome_def)
  show "\<exists>s. engine_step ?H ?g ?st = Continue s \<and> current_id s = ''a''"
    using fail_routing [where H = "?H" and g = "?g" and st = "?st" and n = "?n" and oc = "?oc"
            and cx = Map.empty, OF a1 a2 a3 a4 refl refl]
    by (auto simp: engine_eval graph_eval str_eval best_in_def Let_def)
qed

section \<open>Tool handler: claim C8\<close>

text \<open>
  C8. For a node for whose tool name no executor is registered: when the attribute
  \<open>tool_command\<close> is absent or empty (falsy), the handler returns FAIL with the reason
  \<open>No tool_command or registered tool specified\<close>, whatever the operating system would
  have answered, and leaves the context as it was. When the command runs and exits with
  code 0, the Outcome is SUCCESS and its context updates hold the captured standard
  output followed by the standard error at \<open>tool.output\<close>; when it exits with another
  code, the Outcome is FAIL with that output as reason, or \<open>exit code <n>\<close> when the
  output is empty; when it exceeds the timeout, the Outcome is FAIL with reason
  \<open>Tool timed out\<close>.
\<close>

theorem tool_handler_outcomes:
  assumes "registered env n = None"
  shows
    "((n_attrs n ''tool_command'' = None \<or>
       (\<exists>v. n_attrs n ''tool_command'' = Some v \<and> \<not> py_bool v))
        \<longrightarrow> tool_execute env n ctx =
              ((Outcome FAIL)\<lparr>failure_reason := ''No tool_command or registered tool specified''\<rparr>,
               ctx)) \<and>
     (\<forall>cmd. n_attrs n ''tool_command'' = Some cmd \<and> py_bool cmd \<longrightarrow>
        (\<forall>out err. subprocess_run env cmd (work_dir ctx) = Completed 0 out err \<longrightarrow>
           status (fst (tool_execute env n ctx)) = SUCCESS \<and>
           context_updates (fst (tool_execute env n ctx)) ''tool.output'' = Some (PyStr (out @ err))) \<and>
        (\<forall>rc out err. subprocess_run env cmd (work_dir ctx) = Completed rc out err \<and> rc \<noteq> 0 \<longrightarrow>
           status (fst (tool_execute env n ctx)) = FAIL \<and>
           failure_reason (fst (tool_execute env n ctx)) =
             (if out @ err \<noteq> [] then out @ err else ''exit code '' @ str_int rc)) \<and>
        (subprocess_run env cmd (work_dir ctx) = TimeoutExpired \<longrightarrow>
           status (fst (tool_execute env n ctx)) = FAIL \<and>
           failure_reason (fst (tool_execute env n ctx)) = ''Tool timed out''))"
  using assms
  by (auto simp: tool_execute_def work_dir_def Outcome_def Let_def split: option.splits)

text \<open>
  Runs of C8 with no executor registered: no command; a command that exits with 0; one
  that exits with 2 and prints nothing; one that exceeds the timeout.
\<close>

theorem tool_handler_outcomes_witness:
  "tool_execute \<lparr>executors = Map.empty, subprocess_run = (\<lambda>cmd cwd. TimeoutExpired)\<rparr>
     (Node ''t'' ''parallelogram'' Map.empty) Map.empty
   = ((Outcome FAIL)\<lparr>failure_reason := ''No tool_command or registered tool specified''\<rparr>, Map.empty) \<and>
   status (fst (tool_execute
     \<lparr>executors = Map.empty, subprocess_run = (\<lambda>cmd cwd. Completed 0 ''out'' ''err'')\<rparr>
     (Node ''t'' ''parallelogram'' [''tool_command'' \<mapsto> PyStr ''ls'']) Map.empty)) = SUCCESS \<and>
   context_updates (fst (tool_execute
     \<lparr>executors = Map.empty, subprocess_run = (\<lambda>cmd cwd. Completed 0 ''out'' ''err'')\<rparr>
     (Node ''t'' ''parallelogram'' [''tool_command'' \<mapsto> PyStr ''ls'']) Map.empty)) ''tool.output''
     = Some (PyStr ''outerr'') \<and>
   failure_reason (fst (tool_execute
     \<lparr>executors = Map.empty, subprocess_run = (\<lambda>cmd cwd. Completed 2 [] [])\<rparr>
     (Node ''t'' ''parallelogram'' [''tool_command'' \<mapsto> PyStr ''ls'']) Map.empty))
     = ''exit code 2'' \<and>
   failure_reason (fst (tool_execute
     \<lparr>executors = Map.empty, subprocess_run = (\<lambda>cmd cwd. TimeoutExpired)\<rparr>
     (Node ''t'' ''parallelogram'' [''tool_command'' \<mapsto> PyStr ''ls'']) Map.empty))
     = ''Tool timed out''"
proof (intro conjI)
  let ?bare = "Node ''t'' ''parallelogram'' Map.empty"
  let ?n = "Node ''t'' ''parallelogram'' [''tool_command'' \<mapsto> PyStr ''ls'']"
  let ?tmo = "\<lparr>executors = Map.empty, subprocess_run = (\<lambda>cmd cwd. TimeoutExpired)\<rparr>"
  let ?ok = "\<lparr>executors = Map.empty, subprocess_run = (\<lambda>cmd cwd. Completed 0 ''out'' ''err'')\<rparr>"
  let ?two = "\<lparr>executors = Map.empty, subprocess_run = (\<lambda>cmd cwd. Completed 2 [] [])\<rparr>"
  have r0: "registered ?tmo ?bare = None"
    by (simp add: registered_def py_or_def Node_def)
  have rT: "registered ?tmo ?n = None"
    by (simp add: registered_def py_or_def Node_def)
  have r0': "registered ?ok ?n = None"
    by (simp add: registered_def py_or_def Node_def)
  have r2: "registered ?two ?n = None"
    by (simp add: registered_def py_or_def Node_def)
  show "tool_execute ?tmo ?bare Map.empty
     = ((Outcome FAIL)\<lparr>failure_reason := ''No tool_command or registered tool specified''\<rparr>, Map.empty)"
    using tool_handler_outcomes [OF r0, where ctx = Map.empty] by (simp add: Node_def)
  show "status (fst (tool_execute ?ok ?n Map.empty)) = SUCCESS"
    using tool_handler_outcomes [OF r0', where ctx = Map.empty] by (simp add: Node_def)
  show "context_updates (fst (tool_execute ?ok ?n Map.empty)) ''tool.output'' = Some (PyStr ''outerr'')"
    using tool_handler_outcomes [OF r0', where ctx = Map.empty] by (simp add: Node_def)
  show "failure_reason (fst (tool_execute ?two ?n Map.empty)) = ''exit code 2''"
    using tool_handler_outcomes [OF r2, where ctx = Map.empty] by (simp add: Node_def str_int_def)
  show "failure_reason (fst (tool_execute ?tmo ?n Map.empty)) = ''Tool timed out''"
    using tool_handler_outcomes [OF rT, where ctx = Map.empty] by (simp add: Node_def)
qed

section \<open>Task runner: claim C9\<close>

lemmas task_eval = run_task_def complete_task_def on_event_def modify_task_def append_event_def
  events_of_def task_events_def task_status_def step_names_def get_string_def


text \<open>
  C9. The claim: when an exception escapes the engine the task's status becomes
  \<open>failed\<close> and an error event with the message is appended to the task's event list;
  when the engine returns, the status becomes \<open>completed\<close> and a final progress event is
  appended. In the run below the only stage fails and its only edge is unguarded, so the
  engine raises. The status becomes \<open>failed\<close>, but the task's event list ends with
  StageCompleted: each call of \<open>on_event\<close> has stored a copy of \<open>events\<close> in the task's
  entry, and the error event is appended to \<open>events\<close> itself (the list at address 0),
  which the task no longer refers to.
\<close>

theorem run_task_final_event_not_in_task:
  "\<exists>w. run_task (\<lambda>i n c. Inr ((Outcome FAIL)\<lparr>failure_reason := ''boom''\<rparr>, c))
          (Graph [(''start'', Node ''start'' ''box'' Map.empty),
                  (''end'', Node ''end'' ''Msquare'' Map.empty)]
                 [Edge ''start'' ''end'' [] [] 0])
          Map.empty ''t1''
          \<lparr>task_store = Map.empty, heap = (\<lambda>a. []), fresh = 0\<rparr> = Some w \<and>
       task_status w ''t1'' = ''failed'' \<and>
       task_events w ''t1'' =
         [StageStarted ''start'' ''start'', StageCompleted ''start'' ''fail'' []] \<and>
       heap w 0 =
         [StageStarted ''start'' ''start'', StageCompleted ''start'' ''fail'' [],
          ErrorEvent (''Stage '' @ [CHR 0x27] @ ''start'' @ [CHR 0x27] @ '' failed: boom'')]"
proof -
  let ?H = "\<lambda>(i::nat) (n::node) (c::Context).
              (Inr ((Outcome FAIL)\<lparr>failure_reason := ''boom''\<rparr>, c) :: error + outcome \<times> Context)"
  let ?g = "Graph [(''start'', Node ''start'' ''box'' Map.empty),
                  (''end'', Node ''end'' ''Msquare'' Map.empty)]
                 [Edge ''start'' ''end'' [] [] 0]"
  let ?st = "initial_state ''start'' (seed_context ?g Map.empty)"
  have fs: "find_start_node ?g = Some ''start''"
    by (simp add: engine_eval graph_eval)
  have "\<exists>st'. engine_step ?H ?g ?st =
          Stop (Raised (RuntimeError (''Stage '' @ [CHR 0x27] @ ''start'' @ [CHR 0x27] @
                                      '' failed: boom'')) st') \<and>
          emitted st' = [StageStarted ''start'' ''start'', StageCompleted ''start'' ''fail'' []]"
    by (simp add: engine_eval graph_eval str_eval Let_def)
  then obtain st' where st':
      "engine_step ?H ?g ?st =
          Stop (Raised (RuntimeError (''Stage '' @ [CHR 0x27] @ ''start'' @ [CHR 0x27] @
                                      '' failed: boom'')) st')"
      "emitted st' = [StageStarted ''start'' ''start'', StageCompleted ''start'' ''fail'' []]"
    by blast
  have run: "run ?H ?g Map.empty =
      Some (Raised (RuntimeError (''Stage '' @ [CHR 0x27] @ ''start'' @ [CHR 0x27] @
                                  '' failed: boom'')) st')"
    using fs run_loop_stop [OF st'(1)] by (simp add: run_def)
  show ?thesis
    by (simp add: task_eval run st'(2) Let_def)
qed

text \<open>
  The same happens when the engine returns: the final progress event is in \<open>events\<close> and
  not in the task's event list.
\<close>

lemma run_task_completed_example:
  "\<exists>w res. run_task (\<lambda>i n c. Inr (Outcome SUCCESS, c))
          (Graph [(''start'', Node ''start'' ''box'' Map.empty),
                  (''end'', Node ''end'' ''Msquare'' Map.empty)]
                 [Edge ''start'' ''end'' [] [] 0])
          Map.empty ''t1''
          \<lparr>task_store = Map.empty, heap = (\<lambda>a. []), fresh = 0\<rparr> = Some w \<and>
       task_status w ''t1'' = ''completed'' \<and>
       task_events w ''t1'' =
         [StageStarted ''start'' ''start'', StageCompleted ''start'' ''success'' [],
          PipelineCompleted ''end''] \<and>
       heap w 0 =
         [StageStarted ''start'' ''start'', StageCompleted ''start'' ''success'' [],
          PipelineCompleted ''end'', Progress ''publishing'' 100 (Some res)]"
proof -
  let ?H = "\<lambda>(i::nat) (n::node) (c::Context).
              (Inr (Outcome SUCCESS, c) :: error + outcome \<times> Context)"
  let ?g = "Graph [(''start'', Node ''start'' ''box'' Map.empty),
                  (''end'', Node ''end'' ''Msquare'' Map.empty)]
                 [Edge ''start'' ''end'' [] [] 0]"
  let ?st = "initial_state ''start'' (seed_context ?g Map.empty)"
  have fs: "find_start_node ?g = Some ''start''"
    by (simp add: engine_eval graph_eval)
  have "\<exists>st1. steps ?H ?g 1 ?st = Some st1 \<and> current_id st1 = ''end'' \<and>
          node_outcomes st1 = [(''start'', Outcome SUCCESS)] \<and>
          last_outcome st1 = Some (Outcome SUCCESS) \<and>
          emitted st1 = [StageStarted ''start'' ''start'', StageCompleted ''start'' ''success'' []]"
    by (simp add: engine_eval graph_eval str_eval Let_def condition_matched_def)
  then obtain st1 where st1: "steps ?H ?g 1 ?st = Some st1" "current_id st1 = ''end''"
      "node_outcomes st1 = [(''start'', Outcome SUCCESS)]"
      "last_outcome st1 = Some (Outcome SUCCESS)"
      "emitted st1 = [StageStarted ''start'' ''start'', StageCompleted ''start'' ''success'' []]"
    by blast
  have trm: "is_terminal ?g (current_id st1)"
    by (simp add: st1(2) engine_eval graph_eval)
  have "goal_gate_scan ?g (node_outcomes st1) = None"
    by (simp add: st1(3) engine_eval graph_eval)
  then have "engine_step ?H ?g st1 = finish st1"
    using engine_step_terminal [OF trm, of ?H] by simp
  then have "run_loop ?H ?g st1 = Some (Returned (Outcome SUCCESS)
      (st1\<lparr>emitted := emitted st1 @ [PipelineCompleted ''end'']\<rparr>))"
    using run_loop_stop [of ?H ?g st1] by (simp add: finish_def st1(2,4))
  then have run: "run ?H ?g Map.empty = Some (Returned (Outcome SUCCESS)
      (st1\<lparr>emitted := emitted st1 @ [PipelineCompleted ''end'']\<rparr>))"
    using fs steps_run_loop [OF st1(1)] by (simp add: run_def)
  have oc: "status (Outcome SUCCESS) = SUCCESS" "failure_reason (Outcome SUCCESS) = []"
    by (simp_all add: Outcome_def)
  show ?thesis
    by (simp add: task_eval run st1(5) Let_def oc)
qed

section \<open>Parser: claim C3\<close>

text \<open>
  C3. The claim: a chain \<open>a -> b -> c [attrs]\<close> yields the edges \<open>a -> b\<close> and
  \<open>b -> c\<close>, both carrying the attributes of the trailing bracket block. The parser
  yields the two edges, and both carry the same attributes, but not those of the block:
  on the source \<open>digraph G { a -> b -> c [label="x"] }\<close> both edges have the empty
  label. The first expression stops after \<open>b\<close>, so the attributes are the edge defaults
  alone, and the loop over the chain matches the bracket block and never reads it. The
  same block on a single edge, \<open>digraph G { b -> c [label="x"] }\<close>, gives the label
  \<open>x\<close>.
\<close>

theorem parse_dot_chain_ignores_attribute_block:
  "(\<exists>g. parse_dot fl (''digraph G { a -> b -> c [label='' @ [CHR 0x22] @ ''x'' @ [CHR 0x22] @ ''] }'')
          = Inr g \<and>
        edges g = [Edge ''a'' ''b'' [] [] 0, Edge ''b'' ''c'' [] [] 0]) \<and>
   (\<exists>g. parse_dot fl (''digraph G { b -> c [label='' @ [CHR 0x22] @ ''x'' @ [CHR 0x22] @ ''] }'')
          = Inr g \<and>
        edges g = [Edge ''b'' ''c'' ''x'' [] 0])"
proof -
  have chain:
    "(case parse_dot fl (''digraph G { a -> b -> c [label='' @ [CHR 0x22] @ ''x'' @ [CHR 0x22] @ ''] }'') of
        Inl err \<Rightarrow> False
      | Inr g \<Rightarrow> edges g = [Edge ''a'' ''b'' [] [] 0, Edge ''b'' ''c'' [] [] 0])"
    by code_simp
  have single:
    "(case parse_dot fl (''digraph G { b -> c [label='' @ [CHR 0x22] @ ''x'' @ [CHR 0x22] @ ''] }'') of
        Inl err \<Rightarrow> False
      | Inr g \<Rightarrow> edges g = [Edge ''b'' ''c'' ''x'' [] 0])"
    by code_simp
  from chain single show ?thesis
    by (auto split: sum.splits)
qed

end
